theory Spec2Isabelle
  imports Complex_Main "HOL-Library.Word"
begin

unbundle bit_operations_syntax

section \<open>Source terms of Code\_Saturne's CDO schemes (cs\_source\_term.c)\<close>

text \<open>
  A shallow embedding of \<^verbatim>\<open>cs_source_term.c\<close>: the initialisation of the source terms of
  an equation (\<^verbatim>\<open>cs_source_term_init\<close> with \<^verbatim>\<open>_set_mask\<close>), the cellwise dispatcher
  (\<^verbatim>\<open>cs_source_term_compute_cellwise\<close>) and the ten cellwise evaluators.

  Conventions of the embedding:
  \<^item> a C \<^verbatim>\<open>double\<close> is a \<^typ>\<open>real\<close>: rounding is not modelled. A division whose divisor is
    zero has no real result (IEEE gives an infinity or a NaN); the model ends with the error
    \<open>Division_by_zero\<close> there;
  \<^item> a pointer to an array that the function receives (\<^verbatim>\<open>double *values\<close>, the arrays of a
    \<^verbatim>\<open>cs_cell_mesh_t\<close>, the scratch buffers of a \<^verbatim>\<open>cs_cell_builder_t\<close>) is the function
    from an index to the entry, \<open>p i\<close> for \<^verbatim>\<open>p[i]\<close>, since C does not carry the extent; an array
    the code allocates itself (the mask, \<^verbatim>\<open>BFT_MALLOC(mask, n_cells, cs_mask_t)\<close>) is a list;
  \<^item> a pointer that the code tests or that may be \<^verbatim>\<open>NULL\<close> is an \<open>option\<close>;
  \<^item> counters and indices (\<^verbatim>\<open>int\<close>, \<^verbatim>\<open>short int\<close>, \<^verbatim>\<open>cs_lnum_t\<close>) are \<^typ>\<open>nat\<close>; the one
    place where the width of \<^verbatim>\<open>int\<close> matters, \<^verbatim>\<open>1 << st_id\<close>, is written out;
  \<^item> \<^verbatim>\<open>bft_error\<close> ends the run: it is the error value \<open>Bft_error line format arguments\<close>; a
    failed \<^verbatim>\<open>assert\<close> is \<open>Assertion_failed\<close> unless the build defines \<^verbatim>\<open>NDEBUG\<close>; behaviour
    that C leaves undefined is an error value of its own.
\<close>

subsection \<open>Errors\<close>

datatype error =
    Bft_error nat string "int list"
  | Assertion_failed
  | Null_dereference
  | Out_of_bounds
  | Undefined_shift
  | Invalid_cast
  | Division_by_zero

text \<open>\<^verbatim>\<open>static const char _err_empty_st[]\<close>\<close>

definition err_empty_st :: string where
  "err_empty_st = '' Stop setting an empty cs_xdef_t structure.'' @ [CHR 0x0A]
     @ '' Please check your settings.'' @ [CHR 0x0A]"

subsection \<open>Data\<close>

type_synonym cs_flag_t = nat
type_synonym cs_real_t = real

datatype cs_space_scheme_t =
    CS_SPACE_SCHEME_CDOVB
  | CS_SPACE_SCHEME_CDOVCB
  | CS_SPACE_SCHEME_CDOFB
  | CS_SPACE_SCHEME_HHO
  | CS_SPACE_N_SCHEMES

datatype cs_xdef_type_t =
    CS_XDEF_BY_ANALYTIC_FUNCTION
  | CS_XDEF_BY_ARRAY
  | CS_XDEF_BY_DOF_FUNCTION
  | CS_XDEF_BY_QOV
  | CS_XDEF_BY_VALUE

datatype cs_quadrature_type_t =
    CS_QUADRATURE_NONE
  | CS_QUADRATURE_BARY
  | CS_QUADRATURE_BARY_SUBDIV
  | CS_QUADRATURE_HIGHER
  | CS_QUADRATURE_HIGHEST

text \<open>
  \<^verbatim>\<open>cs_analytic_func_t\<close>, as the evaluators call it:
  \<^verbatim>\<open>func(time, n_pts, NULL, xyz, true, input, retval)\<close>. The model of the callback takes the
  time, the number of points and the \<open>3 * n_pts\<close> coordinates it may read, and gives the
  value it writes to \<^verbatim>\<open>retval[i]\<close>; the opaque \<^verbatim>\<open>input\<close> is part of the closure.
\<close>

type_synonym cs_analytic_func_t = "real \<Rightarrow> nat \<Rightarrow> real list \<Rightarrow> nat \<Rightarrow> real"

text \<open>
  \<^verbatim>\<open>void *input\<close> of a \<^verbatim>\<open>cs_xdef_t\<close>: the evaluators cast it to \<^verbatim>\<open>const cs_real_t *\<close> or to
  \<^verbatim>\<open>cs_xdef_analytic_input_t *\<close>.
\<close>

datatype cs_xdef_input_t =
    Real_input "nat \<Rightarrow> cs_real_t"
  | Analytic_input cs_analytic_func_t

record cs_xdef_t =
  type :: cs_xdef_type_t
  meta :: cs_flag_t
  z_id :: int
  qtype :: cs_quadrature_type_t
  input :: cs_xdef_input_t

record cs_volume_zone_t =
  z_n_cells :: nat
  cell_ids :: "nat \<Rightarrow> nat"

record cs_quant_t =
  center :: "nat \<Rightarrow> real"

record cs_cell_mesh_t =
  flag :: cs_flag_t
  c_id :: nat
  xc :: "nat \<Rightarrow> real"
  vol_c :: real
  n_vc :: nat
  xv :: "nat \<Rightarrow> real"
  wvc :: "nat \<Rightarrow> real"
  n_ec :: nat
  edge :: "nat \<Rightarrow> cs_quant_t"
  n_fc :: nat
  face :: "nat \<Rightarrow> cs_quant_t"
  hfc :: "nat \<Rightarrow> real"
  e2v_ids :: "nat \<Rightarrow> nat"
  f2e_idx :: "nat \<Rightarrow> nat"
  f2e_ids :: "nat \<Rightarrow> nat"
  tef :: "nat \<Rightarrow> real"

record cs_locmat_t =
  n_ent :: nat
  val :: "nat \<Rightarrow> real"

text \<open>
  \<^verbatim>\<open>cs_cell_builder_t\<close>: the local Hodge operator and the scratch buffers. \<^verbatim>\<open>cb->vectors\<close> is
  an array of \<^verbatim>\<open>cs_real_3_t\<close> that the evaluators also pass as a flat array of coordinates:
  \<^verbatim>\<open>vectors[i][k]\<close> is \<open>vectors (3 * i + k)\<close>.
\<close>

record cs_cell_builder_t =
  hdg :: "cs_locmat_t option"
  cb_values :: "nat \<Rightarrow> real"
  vectors :: "nat \<Rightarrow> real"
  ids :: "nat \<Rightarrow> nat"

record cs_cell_sys_t =
  n_dofs :: nat
  source :: "nat \<Rightarrow> real"

subsection \<open>What the file takes from headers and from the rest of the library\<close>

text \<open>
  The constants, macros and functions that \<^verbatim>\<open>cs_source_term.c\<close> uses and that other files
  declare are parameters of the model, together with the module's static pointers
  (\<^verbatim>\<open>cs_cdo_quant\<close>, \<^verbatim>\<open>cs_time_step\<close>), of which only the fields read here are kept.
\<close>

record cs_env =
  NDEBUG :: bool
  CS_N_MAX_SOURCE_TERMS :: nat
  CS_FLAG_FULL_LOC :: cs_flag_t
  CS_FLAG_PRIMAL :: cs_flag_t
  CS_FLAG_DUAL :: cs_flag_t
  CS_FLAG_SYS_HLOC_CONF :: cs_flag_t
  CS_FLAG_SYS_SOURCES_HLOC :: cs_flag_t
  CS_FLAG_SYS_SOURCETERM :: cs_flag_t
  CS_CDO_LOCAL_PV :: cs_flag_t
  CS_CDO_LOCAL_PVQ :: cs_flag_t
  CS_CDO_LOCAL_PEQ :: cs_flag_t
  CS_CDO_LOCAL_DEQ :: cs_flag_t
  CS_CDO_LOCAL_PFQ :: cs_flag_t
  CS_CDO_LOCAL_EV :: cs_flag_t
  CS_CDO_LOCAL_FEQ :: cs_flag_t
  CS_CDO_LOCAL_HFQ :: cs_flag_t
  CS_CDO_LOCAL_FE :: cs_flag_t
  cs_test_flag :: "cs_flag_t \<Rightarrow> cs_flag_t \<Rightarrow> bool"
  cs_math_onesix :: real
  cs_math_voltet :: "(nat \<Rightarrow> real) \<Rightarrow> (nat \<Rightarrow> real) \<Rightarrow> (nat \<Rightarrow> real) \<Rightarrow> (nat \<Rightarrow> real) \<Rightarrow> real"
  cs_quadrature_tet_5pts ::
    "(nat \<Rightarrow> real) \<Rightarrow> (nat \<Rightarrow> real) \<Rightarrow> (nat \<Rightarrow> real) \<Rightarrow> (nat \<Rightarrow> real) \<Rightarrow> real
      \<Rightarrow> (nat \<Rightarrow> real) \<times> (nat \<Rightarrow> real)"
  cs_volume_zone_by_id :: "int \<Rightarrow> cs_volume_zone_t"
  quant_n_cells :: nat
  t_cur :: real

text \<open>\<^verbatim>\<open>assert(c)\<close>: checked unless \<^verbatim>\<open>NDEBUG\<close> is defined.\<close>

definition assert_ok :: "cs_env \<Rightarrow> bool \<Rightarrow> bool" where
  "assert_ok env c \<longleftrightarrow> NDEBUG env \<or> c"

text \<open>The two casts of \<^verbatim>\<open>source->input\<close>.\<close>

definition input_as_real :: "cs_xdef_t \<Rightarrow> error + (nat \<Rightarrow> cs_real_t)" where
  "input_as_real st = (case input st of Real_input a \<Rightarrow> Inr a | Analytic_input f \<Rightarrow> Inl Invalid_cast)"

definition input_as_analytic :: "cs_xdef_t \<Rightarrow> error + cs_analytic_func_t" where
  "input_as_analytic st = (case input st of Analytic_input f \<Rightarrow> Inr f | Real_input a \<Rightarrow> Inl Invalid_cast)"

text \<open>
  \<^verbatim>\<open>cs_source_term_cellwise_t\<close>: the type of an evaluator,
  \<^verbatim>\<open>(source, cm, cb, values)\<close>. It returns the cell builder and the array of values as it
  leaves them.
\<close>

type_synonym cs_source_term_cellwise_t =
  "cs_env \<Rightarrow> cs_xdef_t option \<Rightarrow> cs_cell_mesh_t \<Rightarrow> cs_cell_builder_t \<Rightarrow> (nat \<Rightarrow> real)
    \<Rightarrow> error + (cs_cell_builder_t \<times> (nat \<Rightarrow> real))"

subsection \<open>Loops\<close>

text \<open>A \<^verbatim>\<open>for\<close> loop whose body may end the run: the first error stops it.\<close>

fun for_each :: "('i \<Rightarrow> 's \<Rightarrow> error + 's) \<Rightarrow> 'i list \<Rightarrow> 's \<Rightarrow> error + 's" where
  "for_each body [] s = Inr s"
| "for_each body (i # is) s =
     (case body i s of Inl e \<Rightarrow> Inl e | Inr s' \<Rightarrow> for_each body is s')"

subsection \<open>Calls of the analytic function and of the local matrix product\<close>

text \<open>
  \<^verbatim>\<open>anai->func(tcur, n, NULL, xyz, true, anai->input, retval)\<close> with \<^verbatim>\<open>xyz\<close> an array of the
  cell mesh or of the cell builder: the callback reads the first \<open>3 * n\<close> coordinates.
\<close>

definition call_func :: "cs_analytic_func_t \<Rightarrow> real \<Rightarrow> nat \<Rightarrow> (nat \<Rightarrow> real) \<Rightarrow> nat \<Rightarrow> real" where
  "call_func func tcur n xyz = func tcur n (map xyz [0..<3 * n])"

text \<open>The \<open>n\<close> results of a call, written to \<^verbatim>\<open>buf + off\<close>.\<close>

definition write_retval :: "nat \<Rightarrow> nat \<Rightarrow> (nat \<Rightarrow> real) \<Rightarrow> (nat \<Rightarrow> real) \<Rightarrow> nat \<Rightarrow> real" where
  "write_retval off n r buf = (\<lambda>i. if off \<le> i \<and> i < off + n then r (i - off) else buf i)"

text \<open>
  Modelled from the spec: \<^verbatim>\<open>cs_locmat_matvec(loc, vec, matvec)\<close> is not among the sources; the
  spec has the potential-type evaluators "apply a pre-computed discrete Hodge (mass-like)
  operator as a matrix--vector product". Here \<^verbatim>\<open>vec\<close> is \<^verbatim>\<open>buf + a\<close> and \<^verbatim>\<open>matvec\<close> is
  \<^verbatim>\<open>buf + b\<close>, both in \<^verbatim>\<open>cb->values\<close>; the matrix is stored by rows.
\<close>

definition cs_locmat_matvec :: "cs_locmat_t \<Rightarrow> nat \<Rightarrow> nat \<Rightarrow> (nat \<Rightarrow> real) \<Rightarrow> nat \<Rightarrow> real" where
  "cs_locmat_matvec loc a b buf =
     (let n = n_ent loc
      in (\<lambda>i. if b \<le> i \<and> i < b + n
              then fold (\<lambda>j acc. acc + val loc ((i - b) * n + j) * buf (a + j)) [0..<n] 0
              else buf i))"

text \<open>\<^verbatim>\<open>for (v = 0; v < n; v++) values[v] += hdg_eval[v];\<close> with \<^verbatim>\<open>hdg_eval = buf + off\<close>.\<close>

definition add_to_values :: "nat \<Rightarrow> nat \<Rightarrow> (nat \<Rightarrow> real) \<Rightarrow> (nat \<Rightarrow> real) \<Rightarrow> nat \<Rightarrow> real" where
  "add_to_values n off buf vals = fold (\<lambda>v vs. vs(v := vs v + buf (off + v))) [0..<n] vals"

subsection \<open>Evaluators: potentials at primal vertices\<close>

text \<open>\<^verbatim>\<open>cs_source_term_pvsp_by_value\<close>\<close>

definition cs_source_term_pvsp_by_value :: cs_source_term_cellwise_t where
  "cs_source_term_pvsp_by_value env src cm cb vals =
     (case src of
        None \<Rightarrow> Inr (cb, vals)
      | Some st \<Rightarrow>
          if \<not> assert_ok env (hdg cb \<noteq> None) then Inl Assertion_failed
          else if \<not> assert_ok env (cs_test_flag env (flag cm) (CS_CDO_LOCAL_PV env))
          then Inl Assertion_failed
          else (case input_as_real st of
                  Inl e \<Rightarrow> Inl e
                | Inr inp \<Rightarrow>
                    let pot_value = inp 0;
                        eval = fold (\<lambda>v b. b(v := pot_value)) [0..<n_vc cm] (cb_values cb)
                    in (case hdg cb of
                          None \<Rightarrow> Inl Null_dereference
                        | Some h \<Rightarrow>
                            let hdg_eval = cs_locmat_matvec h 0 (n_vc cm) eval
                            in Inr (cb\<lparr>cb_values := hdg_eval\<rparr>,
                                    add_to_values (n_vc cm) (n_vc cm) hdg_eval vals))))"

text \<open>\<^verbatim>\<open>cs_source_term_pvsp_by_analytic\<close>\<close>

definition cs_source_term_pvsp_by_analytic :: cs_source_term_cellwise_t where
  "cs_source_term_pvsp_by_analytic env src cm cb vals =
     (case src of
        None \<Rightarrow> Inr (cb, vals)
      | Some st \<Rightarrow>
          if \<not> assert_ok env (hdg cb \<noteq> None) then Inl Assertion_failed
          else if \<not> assert_ok env (cs_test_flag env (flag cm) (CS_CDO_LOCAL_PV env))
          then Inl Assertion_failed
          else (let tcur = t_cur env
                in case input_as_analytic st of
                  Inl e \<Rightarrow> Inl e
                | Inr func \<Rightarrow>
                    let eval = write_retval 0 (n_vc cm) (call_func func tcur (n_vc cm) (xv cm))
                                 (cb_values cb)
                    in (case hdg cb of
                          None \<Rightarrow> Inl Null_dereference
                        | Some h \<Rightarrow>
                            let hdg_eval = cs_locmat_matvec h 0 (n_vc cm) eval
                            in Inr (cb\<lparr>cb_values := hdg_eval\<rparr>,
                                    add_to_values (n_vc cm) (n_vc cm) hdg_eval vals))))"

subsection \<open>Evaluators: densities at dual cells\<close>

text \<open>\<^verbatim>\<open>cs_source_term_dcsd_by_value\<close>: a scalar density defined at dual cells by a value.\<close>

definition cs_source_term_dcsd_by_value :: cs_source_term_cellwise_t where
  "cs_source_term_dcsd_by_value env src cm cb vals =
     (case src of
        None \<Rightarrow> Inr (cb, vals)
      | Some st \<Rightarrow>
          if \<not> assert_ok env (cs_test_flag env (flag cm) (CS_CDO_LOCAL_PVQ env))
          then Inl Assertion_failed
          else (case input_as_real st of
                  Inl e \<Rightarrow> Inl e
                | Inr inp \<Rightarrow>
                    let density_value = inp 0
                    in Inr (cb, fold (\<lambda>v vs. vs(v := vs v + density_value * wvc cm v * vol_c cm))
                                  [0..<n_vc cm] vals)))"

text \<open>
  The geometry shared by the loops on the edges of a face: \<^verbatim>\<open>xfc[k] = 0.25*(xf[k] + cm->xc[k])\<close>
  and the two points \<^verbatim>\<open>xfc[k] + 0.375*xv1[k] + 0.125*xv2[k]\<close> (and with \<^verbatim>\<open>v1\<close>, \<^verbatim>\<open>v2\<close> swapped).
\<close>

definition xfc_of :: "cs_cell_mesh_t \<Rightarrow> nat \<Rightarrow> nat \<Rightarrow> real" where
  "xfc_of cm f k = 0.25 * (center (face cm f) k + xc cm k)"

definition xg_of :: "cs_cell_mesh_t \<Rightarrow> nat \<Rightarrow> nat \<Rightarrow> nat \<Rightarrow> nat \<Rightarrow> real" where
  "xg_of cm f va vb k = xfc_of cm f k + 0.375 * xv cm (3 * va + k) + 0.125 * xv cm (3 * vb + k)"

text \<open>\<^verbatim>\<open>cs_source_term_dcsd_bary_by_analytic\<close>: the body of the loop on the edges of face \<open>f\<close>.\<close>

definition dcsd_bary_edge :: "cs_env \<Rightarrow> cs_cell_mesh_t \<Rightarrow> nat \<Rightarrow> nat \<Rightarrow> (nat \<Rightarrow> real) \<Rightarrow> nat \<Rightarrow> real" where
  "dcsd_bary_edge env cm f i xgv =
     (let hf_coef = cs_math_onesix env * hfc cm f;
          e = f2e_ids cm i;
          v1 = e2v_ids cm (2 * e);
          v2 = e2v_ids cm (2 * e + 1);
          tet_vol = tef cm i * hf_coef;
          xgv1 = fold (\<lambda>k b. b(3 * v1 + k := b (3 * v1 + k) + tet_vol * xg_of cm f v1 v2 k))
                   [0..<3] xgv
      in fold (\<lambda>k b. b(3 * v2 + k := b (3 * v2 + k) + tet_vol * xg_of cm f v2 v1 k))
           [0..<3] xgv1)"

text \<open>
  The loop \<^verbatim>\<open>vol_vc[v] = cm->vol_c * cm->wvc[v]; invvol = 1/vol_vc[v]; xgv[v][k] *= invvol\<close>,
  on the pair of \<^verbatim>\<open>cb->values\<close> and \<^verbatim>\<open>cb->vectors\<close>.
\<close>

definition dcsd_bary_scale ::
    "cs_cell_mesh_t \<Rightarrow> nat \<Rightarrow> (nat \<Rightarrow> real) \<times> (nat \<Rightarrow> real) \<Rightarrow> error + ((nat \<Rightarrow> real) \<times> (nat \<Rightarrow> real))" where
  "dcsd_bary_scale cm v = (\<lambda>(vol_vc, xgv).
     let vol_vc1 = vol_vc(v := vol_c cm * wvc cm v)
     in if vol_vc1 v = 0 then Inl Division_by_zero
        else let invvol = 1 / vol_vc1 v
             in Inr (vol_vc1, fold (\<lambda>k b. b(3 * v + k := b (3 * v + k) * invvol)) [0..<3] xgv))"

definition cs_source_term_dcsd_bary_by_analytic :: cs_source_term_cellwise_t where
  "cs_source_term_dcsd_bary_by_analytic env src cm cb vals =
     (case src of
        None \<Rightarrow> Inr (cb, vals)
      | Some st \<Rightarrow>
          if \<not> assert_ok env (cs_test_flag env (flag cm)
                 (CS_CDO_LOCAL_PVQ env OR CS_CDO_LOCAL_PFQ env OR CS_CDO_LOCAL_HFQ env OR
                  CS_CDO_LOCAL_FE env OR CS_CDO_LOCAL_FEQ env OR CS_CDO_LOCAL_EV env))
          then Inl Assertion_failed
          else (case input_as_analytic st of
                  Inl e \<Rightarrow> Inl e
                | Inr func \<Rightarrow>
                    let xgv0 = fold (\<lambda>v b. b(3 * v := 0, 3 * v + 1 := 0, 3 * v + 2 := 0))
                                 [0..<n_vc cm] (vectors cb);
                        xgv1 = fold (\<lambda>f b. fold (dcsd_bary_edge env cm f)
                                               [f2e_idx cm f..<f2e_idx cm (f + 1)] b)
                                 [0..<n_fc cm] xgv0
                    in (case for_each (dcsd_bary_scale cm) [0..<n_vc cm] (cb_values cb, xgv1) of
                          Inl e \<Rightarrow> Inl e
                        | Inr (vol_vc, xgv) \<Rightarrow>
                            let tcur = t_cur env;
                                eval_xgv = write_retval (n_vc cm) (n_vc cm)
                                             (call_func func tcur (n_vc cm) xgv) vol_vc
                            in Inr (cb\<lparr>cb_values := eval_xgv, vectors := xgv\<rparr>,
                                    fold (\<lambda>v vs. vs(v := vol_c cm * wvc cm v * eval_xgv (n_vc cm + v)))
                                      [0..<n_vc cm] vals))))"

text \<open>\<^verbatim>\<open>cs_source_term_dcsd_q1o1_by_analytic\<close>: the body of the loop on the edges of face \<open>f\<close>.\<close>

definition dcsd_q1o1_edge ::
    "cs_env \<Rightarrow> cs_analytic_func_t \<Rightarrow> cs_cell_mesh_t \<Rightarrow> nat \<Rightarrow> nat \<Rightarrow> (nat \<Rightarrow> real) \<Rightarrow> nat \<Rightarrow> real" where
  "dcsd_q1o1_edge env func cm f i vals =
     (let hf_coef = cs_math_onesix env * hfc cm f;
          e = f2e_ids cm i;
          v1 = e2v_ids cm (2 * e);
          v2 = e2v_ids cm (2 * e + 1);
          half_pef_vol = tef cm i * hf_coef;
          xg = map (xg_of cm f v1 v2) [0..<3] @ map (xg_of cm f v2 v1) [0..<3];
          eval_xg = func (t_cur env) 2 xg;
          vals1 = vals(v1 := vals v1 + half_pef_vol * eval_xg 0)
      in vals1(v2 := vals1 v2 + half_pef_vol * eval_xg 1))"

definition cs_source_term_dcsd_q1o1_by_analytic :: cs_source_term_cellwise_t where
  "cs_source_term_dcsd_q1o1_by_analytic env src cm cb vals =
     (case src of
        None \<Rightarrow> Inr (cb, vals)
      | Some st \<Rightarrow>
          if \<not> assert_ok env (cs_test_flag env (flag cm)
                 (CS_CDO_LOCAL_PFQ env OR CS_CDO_LOCAL_HFQ env OR CS_CDO_LOCAL_FE env OR
                  CS_CDO_LOCAL_FEQ env OR CS_CDO_LOCAL_EV env))
          then Inl Assertion_failed
          else (case input_as_analytic st of
                  Inl e \<Rightarrow> Inl e
                | Inr func \<Rightarrow>
                    Inr (cb, fold (\<lambda>f vs. fold (dcsd_q1o1_edge env func cm f)
                                           [f2e_idx cm f..<f2e_idx cm (f + 1)] vs)
                               [0..<n_fc cm] vals)))"

text \<open>
  \<^verbatim>\<open>cs_source_term_dcsd_q10o2_by_analytic\<close>. The buffers it names are parts of \<^verbatim>\<open>cb->values\<close>:
  \<^verbatim>\<open>contrib\<close> at 0, \<^verbatim>\<open>eval_v\<close> then \<^verbatim>\<open>eval_e\<close> at \<open>n_vc\<close>, \<^verbatim>\<open>eval_vc\<close> at \<open>2 * n_vc\<close>,
  \<^verbatim>\<open>eval_ec\<close> at \<open>n_vc + n_ec\<close>, \<^verbatim>\<open>eval_ve\<close> at \<open>n_vc + 2 * n_ec\<close>, \<^verbatim>\<open>pvf_vol\<close> at
  \<open>n_vc + 4 * n_ec\<close> and \<^verbatim>\<open>eval_vfc\<close> at \<open>2 * n_vc + 4 * n_ec\<close>; \<^verbatim>\<open>xvc\<close>, \<^verbatim>\<open>x_e\<close>, \<^verbatim>\<open>xve\<close> and
  \<^verbatim>\<open>xvfc\<close> are \<^verbatim>\<open>cb->vectors\<close> and \<^verbatim>\<open>xec\<close> is \<^verbatim>\<open>cb->vectors + n_ec\<close>.
\<close>

definition q10o2_xvc :: "cs_cell_mesh_t \<Rightarrow> (nat \<Rightarrow> real) \<Rightarrow> nat \<Rightarrow> real" where
  "q10o2_xvc cm vec =
     fold (\<lambda>v b. fold (\<lambda>k b. b(3 * v + k := 0.5 * (xc cm k + xv cm (3 * v + k)))) [0..<3] b)
       [0..<n_vc cm] vec"

definition q10o2_xe_xec :: "cs_cell_mesh_t \<Rightarrow> (nat \<Rightarrow> real) \<Rightarrow> nat \<Rightarrow> real" where
  "q10o2_xe_xec cm vec =
     fold (\<lambda>e b. fold (\<lambda>k b.
             let b1 = b(3 * e + k := center (edge cm e) k)
             in b1(3 * (n_ec cm + e) + k := 0.5 * (xc cm k + b1 (3 * e + k)))) [0..<3] b)
       [0..<n_ec cm] vec"

definition q10o2_xve :: "cs_cell_mesh_t \<Rightarrow> (nat \<Rightarrow> real) \<Rightarrow> nat \<Rightarrow> real" where
  "q10o2_xve cm vec =
     fold (\<lambda>e b.
        let xe = center (edge cm e);
            v1 = e2v_ids cm (2 * e);
            v2 = e2v_ids cm (2 * e + 1)
        in fold (\<lambda>k b.
             let b1 = b(3 * (2 * e) + k := 0.5 * (xv cm (3 * v1 + k) + xe k))
             in b1(3 * (2 * e + 1) + k := 0.5 * (xv cm (3 * v2 + k) + xe k))) [0..<3] b)
       [0..<n_ec cm] vec"

text \<open>The body of the loop on the edges of face \<open>f\<close>, on \<^verbatim>\<open>cb->values\<close>.\<close>

definition q10o2_edge ::
    "cs_env \<Rightarrow> cs_analytic_func_t \<Rightarrow> cs_cell_mesh_t \<Rightarrow> nat \<Rightarrow> nat \<Rightarrow> (nat \<Rightarrow> real) \<Rightarrow> nat \<Rightarrow> real" where
  "q10o2_edge env func cm f i b =
     (let pvf_vol = n_vc cm + 4 * n_ec cm;
          eval_e = n_vc cm;
          eval_ec = n_vc cm + n_ec cm;
          eval_ve = n_vc cm + 2 * n_ec cm;
          xf = center (face cm f);
          e = f2e_ids cm i;
          v1 = e2v_ids cm (2 * e);
          v2 = e2v_ids cm (2 * e + 1);
          half_pef_vol = cs_math_onesix env * tef cm i * hfc cm f;
          b1 = b(pvf_vol + v1 := b (pvf_vol + v1) + half_pef_vol);
          b2 = b1(pvf_vol + v2 := b1 (pvf_vol + v2) + half_pef_vol);
          xef = map (\<lambda>k. 0.5 * (center (edge cm e) k + xf k)) [0..<3];
          eval_ef = func (t_cur env) 1 xef 0;
          common_ef_contrib = 0.2 * (eval_ef + b2 (eval_ec + e)) - 0.05 * b2 (eval_e + e);
          b3 = b2(v1 := b2 v1 + half_pef_vol * (common_ef_contrib + 0.2 * b2 (eval_ve + 2 * e)))
      in b3(v2 := b3 v2 + half_pef_vol * (common_ef_contrib + 0.2 * b3 (eval_ve + (2 * e + 1)))))"

text \<open>
  The loop that collects the vertices of face \<open>f\<close>: the state is \<^verbatim>\<open>n_vf\<close>, \<^verbatim>\<open>cb->ids\<close> and
  \<^verbatim>\<open>xvfc\<close>; \<open>b\<close> is \<^verbatim>\<open>cb->values\<close>.
\<close>

definition q10o2_face_vtx ::
    "cs_cell_mesh_t \<Rightarrow> nat \<Rightarrow> (nat \<Rightarrow> real) \<Rightarrow> nat \<Rightarrow> nat \<times> (nat \<Rightarrow> nat) \<times> (nat \<Rightarrow> real)
      \<Rightarrow> nat \<times> (nat \<Rightarrow> nat) \<times> (nat \<Rightarrow> real)" where
  "q10o2_face_vtx cm f b v = (\<lambda>(n_vf, idv, xvfc).
     if b (n_vc cm + 4 * n_ec cm + v) > 0
     then (n_vf + 1, idv(n_vf := v),
           fold (\<lambda>k x. x(3 * (2 + n_vf) + k := 0.5 * (center (face cm f) k + xv cm (3 * v + k))))
             [0..<3] xvfc)
     else (n_vf, idv, xvfc))"

text \<open>The body of the loop on the faces, on \<^verbatim>\<open>cb->values\<close>, \<^verbatim>\<open>cb->vectors\<close> and \<^verbatim>\<open>cb->ids\<close>.\<close>

definition q10o2_face ::
    "cs_env \<Rightarrow> cs_analytic_func_t \<Rightarrow> cs_cell_mesh_t \<Rightarrow> nat
      \<Rightarrow> (nat \<Rightarrow> real) \<times> (nat \<Rightarrow> real) \<times> (nat \<Rightarrow> nat)
      \<Rightarrow> (nat \<Rightarrow> real) \<times> (nat \<Rightarrow> real) \<times> (nat \<Rightarrow> nat)" where
  "q10o2_face env func cm f = (\<lambda>(cbv, vec, idv).
     let pvf_vol = n_vc cm + 4 * n_ec cm;
         eval_vfc = pvf_vol + n_vc cm;
         xf = center (face cm f);
         cbv1 = fold (\<lambda>v b. b(pvf_vol + v := 0)) [0..<n_vc cm] cbv;
         cbv2 = fold (q10o2_edge env func cm f) [f2e_idx cm f..<f2e_idx cm (f + 1)] cbv1;
         vec1 = fold (\<lambda>k x. let x1 = x(k := xf k) in x1(3 + k := 0.5 * (xf k + xc cm k)))
                  [0..<3] vec;
         (n_vf, idv1, vec2) = fold (q10o2_face_vtx cm f cbv2) [0..<n_vc cm] (0, idv, vec1);
         cbv3 = write_retval eval_vfc (2 + n_vf) (call_func func (t_cur env) (2 + n_vf) vec2) cbv2;
         cbv4 = fold (\<lambda>i b.
                   let v = idv1 i;
                       val_vfc = - 0.05 * b eval_vfc + 0.2 * b (eval_vfc + 1)
                   in b(v := b v + b (pvf_vol + v) * (val_vfc + 0.2 * b (eval_vfc + (2 + i)))))
                  [0..<n_vf] cbv3
     in (cbv4, vec2, idv1))"

definition cs_source_term_dcsd_q10o2_by_analytic :: cs_source_term_cellwise_t where
  "cs_source_term_dcsd_q10o2_by_analytic env src cm cb vals =
     (case src of
        None \<Rightarrow> Inr (cb, vals)
      | Some st \<Rightarrow>
          if \<not> assert_ok env (cs_test_flag env (flag cm)
                 (CS_CDO_LOCAL_PFQ env OR CS_CDO_LOCAL_HFQ env OR CS_CDO_LOCAL_FE env OR
                  CS_CDO_LOCAL_FEQ env OR CS_CDO_LOCAL_EV env OR CS_CDO_LOCAL_PVQ env OR
                  CS_CDO_LOCAL_PEQ env))
          then Inl Assertion_failed
          else (let tcur = t_cur env
                in case input_as_analytic st of
                  Inl e \<Rightarrow> Inl e
                | Inr func \<Rightarrow>
                    let eval_c = call_func func tcur 1 (xc cm) 0;
                        cbv1 = write_retval (n_vc cm) (n_vc cm)
                                 (call_func func tcur (n_vc cm) (xv cm)) (cb_values cb);
                        vec1 = q10o2_xvc cm (vectors cb);
                        cbv2 = write_retval (2 * n_vc cm) (n_vc cm)
                                 (call_func func tcur (n_vc cm) vec1) cbv1;
                        cbv3 = fold (\<lambda>v b. b(v := wvc cm v * vol_c cm
                                        * (- 0.05 * (eval_c + b (n_vc cm + v))
                                           + 0.2 * b (2 * n_vc cm + v))))
                                 [0..<n_vc cm] cbv2;
                        vec2 = q10o2_xe_xec cm vec1;
                        cbv4 = write_retval (n_vc cm) (2 * n_ec cm)
                                 (call_func func tcur (2 * n_ec cm) vec2) cbv3;
                        vec3 = q10o2_xve cm vec2;
                        cbv5 = write_retval (n_vc cm + 2 * n_ec cm) (2 * n_ec cm)
                                 (call_func func tcur (2 * n_ec cm) vec3) cbv4;
                        (contrib, vec4, idv) =
                          fold (q10o2_face env func cm) [0..<n_fc cm] (cbv5, vec3, ids cb)
                    in Inr (cb\<lparr>cb_values := contrib, vectors := vec4, ids := idv\<rparr>,
                            add_to_values (n_vc cm) 0 contrib vals)))"

text \<open>
  \<^verbatim>\<open>cs_source_term_dcsd_q5o3_by_analytic\<close>: the body of the loop on the edges of face \<open>f\<close>, on
  \<^verbatim>\<open>contrib = cb->values\<close>. \<^verbatim>\<open>cs_math_voltet\<close> and \<^verbatim>\<open>cs_quadrature_tet_5pts\<close> come from the
  environment; the latter gives \<^verbatim>\<open>gauss_pts\<close> and \<^verbatim>\<open>weights\<close>.
\<close>

definition q5o3_edge ::
    "cs_env \<Rightarrow> cs_analytic_func_t \<Rightarrow> cs_cell_mesh_t \<Rightarrow> nat \<Rightarrow> nat \<Rightarrow> (nat \<Rightarrow> real) \<Rightarrow> nat \<Rightarrow> real" where
  "q5o3_edge env func cm f i contrib =
     (let xf = center (face cm f);
          e = f2e_ids cm i;
          v1 = e2v_ids cm (2 * e);
          v2 = e2v_ids cm (2 * e + 1);
          xv1 = (\<lambda>k. xv cm (3 * v1 + k));
          xv2 = (\<lambda>k. xv cm (3 * v2 + k));
          tet_vol = 0.5 * cs_math_voltet env xv1 xv2 xf (xc cm);
          (gauss_pts1, weights1) =
             cs_quadrature_tet_5pts env xv1 (center (edge cm e)) xf (xc cm) tet_vol;
          results1 = call_func func (t_cur env) 5 gauss_pts1;
          sum1 = fold (\<lambda>p s. s + results1 p * weights1 p) [0..<5] 0;
          contrib1 = contrib(v1 := contrib v1 + sum1);
          (gauss_pts2, weights2) =
             cs_quadrature_tet_5pts env xv2 (center (edge cm e)) xf (xc cm) tet_vol;
          results2 = call_func func (t_cur env) 5 gauss_pts2;
          sum2 = fold (\<lambda>p s. s + results2 p * weights2 p) [0..<5] 0
      in contrib1(v2 := contrib1 v2 + sum2))"

definition cs_source_term_dcsd_q5o3_by_analytic :: cs_source_term_cellwise_t where
  "cs_source_term_dcsd_q5o3_by_analytic env src cm cb vals =
     (case src of
        None \<Rightarrow> Inr (cb, vals)
      | Some st \<Rightarrow>
          if \<not> assert_ok env (cs_test_flag env (flag cm)
                 (CS_CDO_LOCAL_PEQ env OR CS_CDO_LOCAL_PFQ env OR CS_CDO_LOCAL_FE env OR
                  CS_CDO_LOCAL_EV env))
          then Inl Assertion_failed
          else (case input_as_analytic st of
                  Inl e \<Rightarrow> Inl e
                | Inr func \<Rightarrow>
                    let contrib0 = fold (\<lambda>v b. b(v := 0)) [0..<n_vc cm] (cb_values cb);
                        contrib = fold (\<lambda>f b. fold (q5o3_edge env func cm f)
                                                  [f2e_idx cm f..<f2e_idx cm (f + 1)] b)
                                    [0..<n_fc cm] contrib0
                    in Inr (cb\<lparr>cb_values := contrib\<rparr>,
                            add_to_values (n_vc cm) 0 contrib vals)))"

subsection \<open>Evaluators: potentials at primal vertices and cells\<close>

text \<open>\<^verbatim>\<open>cs_source_term_vcsp_by_value\<close>\<close>

definition cs_source_term_vcsp_by_value :: cs_source_term_cellwise_t where
  "cs_source_term_vcsp_by_value env src cm cb vals =
     (case src of
        None \<Rightarrow> Inr (cb, vals)
      | Some st \<Rightarrow>
          if \<not> assert_ok env (hdg cb \<noteq> None) then Inl Assertion_failed
          else (case input_as_real st of
                  Inl e \<Rightarrow> Inl e
                | Inr inp \<Rightarrow>
                    let pot_value = inp 0;
                        eval0 = fold (\<lambda>v b. b(v := pot_value)) [0..<n_vc cm] (cb_values cb);
                        eval = eval0(n_vc cm := pot_value)
                    in (case hdg cb of
                          None \<Rightarrow> Inl Null_dereference
                        | Some h \<Rightarrow>
                            let hdg_eval = cs_locmat_matvec h 0 (n_vc cm + 1) eval
                            in Inr (cb\<lparr>cb_values := hdg_eval\<rparr>,
                                    add_to_values (n_vc cm + 1) (n_vc cm + 1) hdg_eval vals))))"

text \<open>\<^verbatim>\<open>cs_source_term_vcsp_by_analytic\<close>\<close>

definition cs_source_term_vcsp_by_analytic :: cs_source_term_cellwise_t where
  "cs_source_term_vcsp_by_analytic env src cm cb vals =
     (case src of
        None \<Rightarrow> Inr (cb, vals)
      | Some st \<Rightarrow>
          if \<not> assert_ok env (hdg cb \<noteq> None) then Inl Assertion_failed
          else (let tcur = t_cur env
                in case input_as_analytic st of
                  Inl e \<Rightarrow> Inl e
                | Inr func \<Rightarrow>
                    let eval0 = write_retval 0 (n_vc cm) (call_func func tcur (n_vc cm) (xv cm))
                                  (cb_values cb);
                        eval = write_retval (n_vc cm) 1 (call_func func tcur 1 (xc cm)) eval0
                    in (case hdg cb of
                          None \<Rightarrow> Inl Null_dereference
                        | Some h \<Rightarrow>
                            let hdg_eval = cs_locmat_matvec h 0 (n_vc cm + 1) eval
                            in Inr (cb\<lparr>cb_values := hdg_eval\<rparr>,
                                    add_to_values (n_vc cm + 1) (n_vc cm + 1) hdg_eval vals))))"

subsection \<open>Evaluators: face-based schemes\<close>

text \<open>\<^verbatim>\<open>cs_source_term_fbsd_by_value\<close>: \<^verbatim>\<open>values[cm->n_fc] = input[0] * cm->vol_c;\<close>\<close>

definition cs_source_term_fbsd_by_value :: cs_source_term_cellwise_t where
  "cs_source_term_fbsd_by_value env src cm cb vals =
     (case src of
        None \<Rightarrow> Inr (cb, vals)
      | Some st \<Rightarrow>
          (case input_as_real st of
             Inl e \<Rightarrow> Inl e
           | Inr inp \<Rightarrow> Inr (cb, vals(n_fc cm := inp 0 * vol_c cm))))"

text \<open>\<^verbatim>\<open>cs_source_term_fbsd_bary_by_analytic\<close>: \<^verbatim>\<open>values[cm->n_fc] = cm->vol_c * eval_xc;\<close>\<close>

definition cs_source_term_fbsd_bary_by_analytic :: cs_source_term_cellwise_t where
  "cs_source_term_fbsd_bary_by_analytic env src cm cb vals =
     (case src of
        None \<Rightarrow> Inr (cb, vals)
      | Some st \<Rightarrow>
          (case input_as_analytic st of
             Inl e \<Rightarrow> Inl e
           | Inr func \<Rightarrow>
               let tcur = t_cur env;
                   eval_xc = call_func func tcur 1 (xc cm) 0
               in Inr (cb, vals(n_fc cm := vol_c cm * eval_xc))))"

subsection \<open>The mask of the cells\<close>

text \<open>
  \<^verbatim>\<open>const cs_mask_t mask = (1 << st_id);\<close> The shift is done on a 32-bit \<^verbatim>\<open>int\<close>, where it is
  defined for \<open>st_id < 31\<close>, and converted to \<^verbatim>\<open>cs_mask_t\<close>, an unsigned type the header
  declares: a word, whose width is the type parameter.
\<close>

definition st_mask_of :: "nat \<Rightarrow> error + 'a::len word" where
  "st_mask_of st_id =
     (if st_id < 31 then Inr (word_of_int (push_bit st_id 1)) else Inl Undefined_shift)"

text \<open>\<^verbatim>\<open>cell_mask[i] |= mask;\<close> on the array of \<^verbatim>\<open>n_cells\<close> words that the caller allocated.\<close>

definition or_mask_at :: "'a::len word \<Rightarrow> nat \<Rightarrow> 'a word list \<Rightarrow> error + 'a word list" where
  "or_mask_at msk i cell_mask =
     (if i < length cell_mask then Inr (cell_mask[i := cell_mask ! i OR msk])
      else Inl Out_of_bounds)"

text \<open>\<^verbatim>\<open>_set_mask\<close>\<close>

definition set_mask :: "cs_env \<Rightarrow> cs_xdef_t option \<Rightarrow> nat \<Rightarrow> 'a::len word list \<Rightarrow> error + 'a word list" where
  "set_mask env st st_id cell_mask =
     (case st of
        None \<Rightarrow> Inl (Bft_error 132 err_empty_st [])
      | Some d \<Rightarrow>
          (case st_mask_of st_id of
             Inl e \<Rightarrow> Inl e
           | Inr msk \<Rightarrow>
               if meta d AND CS_FLAG_FULL_LOC env \<noteq> 0
               then for_each (\<lambda>i. or_mask_at msk i) [0..<quant_n_cells env] cell_mask
               else let z = cs_volume_zone_by_id env (z_id d)
                    in for_each (\<lambda>i. or_mask_at msk (cell_ids z i)) [0..<z_n_cells z] cell_mask))"

subsection \<open>\<^verbatim>\<open>cs_source_term_init\<close>\<close>

text \<open>
  The state of the loop on the source terms: \<^verbatim>\<open>msh_flag\<close>, \<^verbatim>\<open>*sys_flag\<close>, \<^verbatim>\<open>need_mask\<close> and
  the array \<^verbatim>\<open>compute_source\<close>.
\<close>

type_synonym init_state =
  "cs_flag_t \<times> cs_flag_t \<times> bool \<times> (nat \<Rightarrow> cs_source_term_cellwise_t option)"

text \<open>\<^verbatim>\<open>case CS_SPACE_SCHEME_CDOVB:\<close>\<close>

definition init_cdovb ::
    "cs_env \<Rightarrow> cs_xdef_t \<Rightarrow> nat \<Rightarrow> cs_flag_t \<times> (nat \<Rightarrow> cs_source_term_cellwise_t option)
      \<Rightarrow> error + (cs_flag_t \<times> (nat \<Rightarrow> cs_source_term_cellwise_t option))" where
  "init_cdovb env st_def st_id = (\<lambda>(msh_flag, compute_source).
     if meta st_def AND CS_FLAG_DUAL env \<noteq> 0 then
       (case type st_def of
          CS_XDEF_BY_VALUE \<Rightarrow>
            Inr (msh_flag OR CS_CDO_LOCAL_PVQ env,
                 compute_source(st_id := Some cs_source_term_dcsd_by_value))
        | CS_XDEF_BY_ANALYTIC_FUNCTION \<Rightarrow>
            (case qtype st_def of
               CS_QUADRATURE_BARY \<Rightarrow>
                 Inr (msh_flag OR (CS_CDO_LOCAL_PVQ env OR CS_CDO_LOCAL_EV env OR
                        CS_CDO_LOCAL_PFQ env OR CS_CDO_LOCAL_HFQ env OR CS_CDO_LOCAL_FE env OR
                        CS_CDO_LOCAL_FEQ env),
                      compute_source(st_id := Some cs_source_term_dcsd_bary_by_analytic))
             | CS_QUADRATURE_BARY_SUBDIV \<Rightarrow>
                 Inr (msh_flag OR (CS_CDO_LOCAL_EV env OR CS_CDO_LOCAL_PFQ env OR
                        CS_CDO_LOCAL_HFQ env OR CS_CDO_LOCAL_FE env OR CS_CDO_LOCAL_FEQ env),
                      compute_source(st_id := Some cs_source_term_dcsd_q1o1_by_analytic))
             | CS_QUADRATURE_HIGHER \<Rightarrow>
                 Inr (msh_flag OR (CS_CDO_LOCAL_PFQ env OR CS_CDO_LOCAL_HFQ env OR
                        CS_CDO_LOCAL_FE env OR CS_CDO_LOCAL_FEQ env OR CS_CDO_LOCAL_EV env OR
                        CS_CDO_LOCAL_PVQ env OR CS_CDO_LOCAL_PEQ env),
                      compute_source(st_id := Some cs_source_term_dcsd_q10o2_by_analytic))
             | CS_QUADRATURE_HIGHEST \<Rightarrow>
                 Inr (msh_flag OR (CS_CDO_LOCAL_PEQ env OR CS_CDO_LOCAL_PFQ env OR
                        CS_CDO_LOCAL_FE env OR CS_CDO_LOCAL_EV env),
                      compute_source(st_id := Some cs_source_term_dcsd_q5o3_by_analytic))
             | _ \<Rightarrow>
                 Inl (Bft_error 387
                   ('' Invalid type of quadrature for computing a source term'' @
                    '' with CDOVB schemes'') []))
        | _ \<Rightarrow>
            Inl (Bft_error 394 '' Invalid type of definition for a source term in CDOVB'' []))
     else if \<not> assert_ok env (meta st_def AND CS_FLAG_PRIMAL env \<noteq> 0) then Inl Assertion_failed
     else
       (case type st_def of
          CS_XDEF_BY_VALUE \<Rightarrow>
            Inr (msh_flag OR CS_CDO_LOCAL_PV env,
                 compute_source(st_id := Some cs_source_term_pvsp_by_value))
        | CS_XDEF_BY_ANALYTIC_FUNCTION \<Rightarrow>
            Inr (msh_flag OR CS_CDO_LOCAL_PV env,
                 compute_source(st_id := Some cs_source_term_pvsp_by_analytic))
        | _ \<Rightarrow>
            Inl (Bft_error 416 '' Invalid type of definition for a source term in CDOVB'' [])))"

text \<open>\<^verbatim>\<open>case CS_SPACE_SCHEME_CDOVCB:\<close>\<close>

definition init_cdovcb ::
    "cs_env \<Rightarrow> cs_xdef_t \<Rightarrow> nat \<Rightarrow> cs_flag_t \<times> (nat \<Rightarrow> cs_source_term_cellwise_t option)
      \<Rightarrow> error + (cs_flag_t \<times> (nat \<Rightarrow> cs_source_term_cellwise_t option))" where
  "init_cdovcb env st_def st_id = (\<lambda>(msh_flag, compute_source).
     if meta st_def AND CS_FLAG_DUAL env \<noteq> 0 then
       Inl (Bft_error 428 '' Invalid type of definition for a source term in CDOVB'' [])
     else if \<not> assert_ok env (meta st_def AND CS_FLAG_PRIMAL env \<noteq> 0) then Inl Assertion_failed
     else
       (case type st_def of
          CS_XDEF_BY_VALUE \<Rightarrow>
            Inr (msh_flag OR CS_CDO_LOCAL_PV env,
                 compute_source(st_id := Some cs_source_term_vcsp_by_value))
        | CS_XDEF_BY_ANALYTIC_FUNCTION \<Rightarrow>
            Inr (msh_flag OR CS_CDO_LOCAL_PV env,
                 compute_source(st_id := Some cs_source_term_vcsp_by_analytic))
        | _ \<Rightarrow>
            Inl (Bft_error 458 '' Invalid type of definition for a source term in CDOVB'' [])))"

text \<open>\<^verbatim>\<open>case CS_SPACE_SCHEME_CDOFB:\<close>\<close>

definition init_cdofb ::
    "cs_env \<Rightarrow> cs_xdef_t \<Rightarrow> nat \<Rightarrow> cs_flag_t \<times> (nat \<Rightarrow> cs_source_term_cellwise_t option)
      \<Rightarrow> error + (cs_flag_t \<times> (nat \<Rightarrow> cs_source_term_cellwise_t option))" where
  "init_cdofb env st_def st_id = (\<lambda>(msh_flag, compute_source).
     case type st_def of
       CS_XDEF_BY_VALUE \<Rightarrow>
         Inr (msh_flag, compute_source(st_id := Some cs_source_term_fbsd_by_value))
     | CS_XDEF_BY_ANALYTIC_FUNCTION \<Rightarrow>
         Inr (msh_flag OR CS_CDO_LOCAL_PV env,
              compute_source(st_id := Some cs_source_term_fbsd_bary_by_analytic))
     | _ \<Rightarrow>
         Inl (Bft_error 480 '' Invalid type of definition for a source term in CDOVB'' []))"

text \<open>The body of the loop on the source terms.\<close>

definition init_source_term ::
    "cs_env \<Rightarrow> cs_space_scheme_t \<Rightarrow> (nat \<Rightarrow> cs_xdef_t option) \<Rightarrow> nat \<Rightarrow> init_state
      \<Rightarrow> error + init_state" where
  "init_source_term env space_scheme source_terms st_id =
     (\<lambda>(msh_flag, sys_flag, need_mask, compute_source).
     case source_terms st_id of
       None \<Rightarrow> Inl Null_dereference
     | Some st_def \<Rightarrow>
         let hloc = (meta st_def AND CS_FLAG_PRIMAL env \<noteq> 0
                     \<and> (space_scheme = CS_SPACE_SCHEME_CDOVB
                        \<or> space_scheme = CS_SPACE_SCHEME_CDOVCB));
             msh_flag1 = (if hloc
                          then msh_flag OR (CS_CDO_LOCAL_PVQ env OR CS_CDO_LOCAL_DEQ env OR
                                 CS_CDO_LOCAL_PFQ env OR CS_CDO_LOCAL_EV env OR
                                 CS_CDO_LOCAL_FEQ env OR CS_CDO_LOCAL_HFQ env)
                          else msh_flag);
             sys_flag1 = (if hloc
                          then sys_flag OR (CS_FLAG_SYS_HLOC_CONF env OR CS_FLAG_SYS_SOURCES_HLOC env)
                          else sys_flag);
             need_mask1 = (if meta st_def AND CS_FLAG_FULL_LOC env = 0 then True else need_mask)
         in (case (case space_scheme of
                     CS_SPACE_SCHEME_CDOVB \<Rightarrow> init_cdovb env st_def st_id (msh_flag1, compute_source)
                   | CS_SPACE_SCHEME_CDOVCB \<Rightarrow> init_cdovcb env st_def st_id (msh_flag1, compute_source)
                   | CS_SPACE_SCHEME_CDOFB \<Rightarrow> init_cdofb env st_def st_id (msh_flag1, compute_source)
                   | _ \<Rightarrow> Inl (Bft_error 489 ''Invalid space scheme for setting the source term.'' []))
             of Inl e \<Rightarrow> Inl e
              | Inr (msh_flag2, compute_source2) \<Rightarrow>
                  Inr (msh_flag2, sys_flag1, need_mask1, compute_source2)))"

text \<open>What \<^verbatim>\<open>cs_source_term_init\<close> gives: an error, or the returned \<^verbatim>\<open>msh_flag\<close>, the array
  \<^verbatim>\<open>compute_source\<close>, \<^verbatim>\<open>*sys_flag\<close> and \<^verbatim>\<open>*source_mask\<close>.\<close>

type_synonym 'a init_result =
  "error + (cs_flag_t \<times> (nat \<Rightarrow> cs_source_term_cellwise_t option) \<times> cs_flag_t
            \<times> 'a word list option)"

text \<open>
  \<^verbatim>\<open>cs_source_term_init\<close>. The result is the returned \<^verbatim>\<open>msh_flag\<close>, the array
  \<^verbatim>\<open>compute_source\<close>, \<^verbatim>\<open>*sys_flag\<close> and \<^verbatim>\<open>*source_mask\<close>.
\<close>

definition cs_source_term_init ::
    "cs_env \<Rightarrow> cs_space_scheme_t \<Rightarrow> nat \<Rightarrow> (nat \<Rightarrow> cs_xdef_t option)
      \<Rightarrow> (nat \<Rightarrow> cs_source_term_cellwise_t option) \<Rightarrow> cs_flag_t
      \<Rightarrow> 'a::len init_result" where
  "cs_source_term_init env space_scheme n_source_terms source_terms compute_source sys_flag =
     (if n_source_terms > CS_N_MAX_SOURCE_TERMS env
      then Inl (Bft_error 314 '' Limitation to %d source terms has been reached!''
                  [int (CS_N_MAX_SOURCE_TERMS env)])
      else
        let msh_flag = 0;
            compute_source0 = fold (\<lambda>i cs. cs(i := None)) [0..<CS_N_MAX_SOURCE_TERMS env]
                                compute_source
        in if n_source_terms = 0 then Inr (msh_flag, compute_source0, sys_flag, None)
           else
             (case for_each (init_source_term env space_scheme source_terms) [0..<n_source_terms]
                     (msh_flag, sys_flag, False, compute_source0) of
                Inl e \<Rightarrow> Inl e
              | Inr (msh_flag1, sys_flag1, need_mask, compute_source1) \<Rightarrow>
                  if need_mask
                  then
                    (let n_cells = quant_n_cells env;
                         mask0 = replicate n_cells 0
                     in case for_each (\<lambda>st_id. set_mask env (source_terms st_id) st_id)
                               [0..<n_source_terms] mask0 of
                          Inl e \<Rightarrow> Inl e
                        | Inr mask1 \<Rightarrow> Inr (msh_flag1, compute_source1, sys_flag1, Some mask1))
                  else Inr (msh_flag1, compute_source1, sys_flag1, None)))"

subsection \<open>\<^verbatim>\<open>cs_source_term_compute_cellwise\<close>\<close>

text \<open>\<^verbatim>\<open>compute(source_terms[st_id], cm, cb, csys->source);\<close> through the function pointer.\<close>

definition call_compute ::
    "cs_env \<Rightarrow> (nat \<Rightarrow> cs_xdef_t option) \<Rightarrow> cs_cell_mesh_t
      \<Rightarrow> (nat \<Rightarrow> cs_source_term_cellwise_t option) \<Rightarrow> nat
      \<Rightarrow> cs_cell_builder_t \<times> (nat \<Rightarrow> real) \<Rightarrow> error + (cs_cell_builder_t \<times> (nat \<Rightarrow> real))" where
  "call_compute env source_terms cm compute_source st_id = (\<lambda>(cb, vals).
     case compute_source st_id of
       None \<Rightarrow> Inl Null_dereference
     | Some compute \<Rightarrow> compute env (source_terms st_id) cm cb vals)"

text \<open>The body of the loop of the branch with a mask.\<close>

definition compute_masked ::
    "cs_env \<Rightarrow> (nat \<Rightarrow> cs_xdef_t option) \<Rightarrow> cs_cell_mesh_t \<Rightarrow> 'a::len word list
      \<Rightarrow> (nat \<Rightarrow> cs_source_term_cellwise_t option) \<Rightarrow> nat
      \<Rightarrow> cs_cell_builder_t \<times> (nat \<Rightarrow> real) \<Rightarrow> error + (cs_cell_builder_t \<times> (nat \<Rightarrow> real))" where
  "compute_masked env source_terms cm source_mask compute_source st_id s =
     (case st_mask_of st_id of
        Inl e \<Rightarrow> Inl e
      | Inr st_mask \<Rightarrow>
          if \<not> c_id cm < length source_mask then Inl Out_of_bounds
          else if source_mask ! c_id cm AND st_mask \<noteq> 0
          then call_compute env source_terms cm compute_source st_id s
          else Inr s)"

definition cs_source_term_compute_cellwise ::
    "cs_env \<Rightarrow> nat \<Rightarrow> (nat \<Rightarrow> cs_xdef_t option) \<Rightarrow> cs_cell_mesh_t \<Rightarrow> cs_flag_t
      \<Rightarrow> 'a::len word list option \<Rightarrow> (nat \<Rightarrow> cs_source_term_cellwise_t option)
      \<Rightarrow> cs_cell_builder_t \<Rightarrow> cs_cell_sys_t \<Rightarrow> error + (cs_cell_builder_t \<times> cs_cell_sys_t)" where
  "cs_source_term_compute_cellwise env n_source_terms source_terms cm sys_flag source_mask
       compute_source cb csys =
     (let source0 = fold (\<lambda>i s. s(i := 0)) [0..<n_dofs csys] (source csys)
      in if sys_flag AND CS_FLAG_SYS_SOURCETERM env = 0 then Inr (cb, csys\<lparr>source := source0\<rparr>)
         else
           (case (case source_mask of
                    None \<Rightarrow>
                      for_each (call_compute env source_terms cm compute_source)
                        [0..<n_source_terms] (cb, source0)
                  | Some msk \<Rightarrow>
                      for_each (compute_masked env source_terms cm msk compute_source)
                        [0..<n_source_terms] (cb, source0))
            of Inl e \<Rightarrow> Inl e
             | Inr (cb1, source1) \<Rightarrow> Inr (cb1, csys\<lparr>source := source1\<rparr>)))"

subsection \<open>The cells of a definition\<close>

text \<open>
  A definition covers the full domain when its flag has \<^verbatim>\<open>CS_FLAG_FULL_LOC\<close>; a cell belongs to
  its zone when it is one of the \<^verbatim>\<open>n_cells\<close> entries of \<^verbatim>\<open>cell_ids\<close> of the zone of its
  \<^verbatim>\<open>z_id\<close>.
\<close>

definition full_domain :: "cs_env \<Rightarrow> cs_xdef_t option \<Rightarrow> bool" where
  "full_domain env st \<longleftrightarrow>
     (case st of None \<Rightarrow> False | Some d \<Rightarrow> meta d AND CS_FLAG_FULL_LOC env \<noteq> 0)"

definition in_zone :: "cs_env \<Rightarrow> cs_xdef_t option \<Rightarrow> nat \<Rightarrow> bool" where
  "in_zone env st c \<longleftrightarrow>
     (case st of
        None \<Rightarrow> False
      | Some d \<Rightarrow>
          let z = cs_volume_zone_by_id env (z_id d)
          in c \<in> set (map (cell_ids z) [0..<z_n_cells z]))"

definition covers :: "cs_env \<Rightarrow> cs_xdef_t option \<Rightarrow> nat \<Rightarrow> bool" where
  "covers env st c \<longleftrightarrow> full_domain env st \<or> in_zone env st c"

subsection \<open>A concrete configuration\<close>

text \<open>
  An environment to run the model in: assertions are checked, eight source terms at most,
  every flag on a bit of its own, \<^verbatim>\<open>cs_test_flag\<close> testing that all bits of the mask are set,
  a mesh of four cells and two zones, zone 0 with all cells and zone 1 with the cells 1 and 3.
\<close>

definition test_flag :: "cs_flag_t \<Rightarrow> cs_flag_t \<Rightarrow> bool" where
  "test_flag f m \<longleftrightarrow> f AND m = m"

definition sub3 :: "(nat \<Rightarrow> real) \<Rightarrow> (nat \<Rightarrow> real) \<Rightarrow> nat \<Rightarrow> real" where
  "sub3 a b k = a k - b k"

definition voltet :: "(nat \<Rightarrow> real) \<Rightarrow> (nat \<Rightarrow> real) \<Rightarrow> (nat \<Rightarrow> real) \<Rightarrow> (nat \<Rightarrow> real) \<Rightarrow> real" where
  "voltet a b c d =
     (let u = sub3 b a; v = sub3 c a; w = sub3 d a
      in \<bar>(u 1 * v 2 - u 2 * v 1) * w 0 + (u 2 * v 0 - u 0 * v 2) * w 1
          + (u 0 * v 1 - u 1 * v 0) * w 2\<bar> / 6)"

definition tet_5pts ::
    "(nat \<Rightarrow> real) \<Rightarrow> (nat \<Rightarrow> real) \<Rightarrow> (nat \<Rightarrow> real) \<Rightarrow> (nat \<Rightarrow> real) \<Rightarrow> real
      \<Rightarrow> (nat \<Rightarrow> real) \<times> (nat \<Rightarrow> real)" where
  "tet_5pts a b c d vol =
     ((\<lambda>i. let p = i div 3; k = i mod 3; s = a k + b k + c k + d k
           in if p = 0 then s / 4
              else s / 6 + (if p = 1 then a k else if p = 2 then b k else if p = 3 then c k else d k) / 3),
      (\<lambda>p. if p = 0 then - 4 / 5 * vol else 9 / 20 * vol))"

definition example_zone :: "int \<Rightarrow> cs_volume_zone_t" where
  "example_zone z =
     (if z = 1 then \<lparr>z_n_cells = 2, cell_ids = (\<lambda>i. [1, 3] ! i)\<rparr>
      else \<lparr>z_n_cells = 4, cell_ids = (\<lambda>i. i)\<rparr>)"

definition example_env :: cs_env where
  "example_env =
     \<lparr>NDEBUG = False,
      CS_N_MAX_SOURCE_TERMS = 8,
      CS_FLAG_FULL_LOC = 1,
      CS_FLAG_PRIMAL = 2,
      CS_FLAG_DUAL = 4,
      CS_FLAG_SYS_HLOC_CONF = 1,
      CS_FLAG_SYS_SOURCES_HLOC = 2,
      CS_FLAG_SYS_SOURCETERM = 4,
      CS_CDO_LOCAL_PV = 1,
      CS_CDO_LOCAL_PVQ = 2,
      CS_CDO_LOCAL_PEQ = 4,
      CS_CDO_LOCAL_DEQ = 8,
      CS_CDO_LOCAL_PFQ = 16,
      CS_CDO_LOCAL_EV = 32,
      CS_CDO_LOCAL_FEQ = 64,
      CS_CDO_LOCAL_HFQ = 128,
      CS_CDO_LOCAL_FE = 256,
      cs_test_flag = test_flag,
      cs_math_onesix = 1 / 6,
      cs_math_voltet = voltet,
      cs_quadrature_tet_5pts = tet_5pts,
      cs_volume_zone_by_id = example_zone,
      quant_n_cells = 4,
      t_cur = 0\<rparr>"

text \<open>
  A tetrahedral cell of volume 1, with the vertices (0,0,0), (1,0,0), (0,2,0) and (0,0,3):
  six edges, four faces, and a quarter of the volume for the dual cell of each vertex.
\<close>

definition unit_tet :: cs_cell_mesh_t where
  "unit_tet =
     \<lparr>flag = 511,
      c_id = 0,
      xc = (\<lambda>k. [1/4, 1/2, 3/4] ! k),
      vol_c = 1,
      n_vc = 4,
      xv = (\<lambda>i. [0, 0, 0,  1, 0, 0,  0, 2, 0,  0, 0, 3] ! i),
      wvc = (\<lambda>v. 1/4),
      n_ec = 6,
      edge = (\<lambda>e. \<lparr>center = (\<lambda>k. [[1/2, 0, 0], [0, 1, 0], [0, 0, 3/2],
                                      [1/2, 1, 0], [1/2, 0, 3/2], [0, 1, 3/2]] ! e ! k)\<rparr>),
      n_fc = 4,
      face = (\<lambda>f. \<lparr>center = (\<lambda>k. [[1/3, 2/3, 0], [1/3, 0, 1], [0, 2/3, 1], [1/3, 2/3, 1]] ! f ! k)\<rparr>),
      hfc = (\<lambda>f. [3/4, 1/2, 1/4, 3/14] ! f),
      e2v_ids = (\<lambda>i. [0, 1,  0, 2,  0, 3,  1, 2,  1, 3,  2, 3] ! i),
      f2e_idx = (\<lambda>f. [0, 3, 6, 9, 12] ! f),
      f2e_ids = (\<lambda>i. [0, 1, 3,  0, 2, 4,  1, 2, 5,  3, 4, 5] ! i),
      tef = (\<lambda>i. [1/3, 1/3, 1/3,  1/2, 1/2, 1/2,  1, 1, 1,  7/6, 7/6, 7/6] ! i)\<rparr>"

definition empty_cb :: cs_cell_builder_t where
  "empty_cb = \<lparr>hdg = None, cb_values = (\<lambda>i. 0), vectors = (\<lambda>i. 0), ids = (\<lambda>i. 0)\<rparr>"

text \<open>A source term defined by the value \<open>v\<close>, and one defined by an analytic function.\<close>

definition by_value :: "cs_flag_t \<Rightarrow> int \<Rightarrow> real \<Rightarrow> cs_xdef_t" where
  "by_value m z v =
     \<lparr>type = CS_XDEF_BY_VALUE, meta = m, z_id = z, qtype = CS_QUADRATURE_NONE,
      input = Real_input (\<lambda>i. v)\<rparr>"

definition by_analytic :: "cs_flag_t \<Rightarrow> int \<Rightarrow> cs_quadrature_type_t \<Rightarrow> cs_analytic_func_t \<Rightarrow> cs_xdef_t" where
  "by_analytic m z q func =
     \<lparr>type = CS_XDEF_BY_ANALYTIC_FUNCTION, meta = m, z_id = z, qtype = q,
      input = Analytic_input func\<rparr>"

text \<open>Inputs of the examples below.\<close>

definition const_two :: cs_analytic_func_t where
  "const_two t n xyz i = 2"

definition zero_values :: "nat \<Rightarrow> real" where
  "zero_values i = 0"

definition ten_values :: "nat \<Rightarrow> real" where
  "ten_values i = 10"

definition no_bindings :: "nat \<Rightarrow> cs_source_term_cellwise_t option" where
  "no_bindings i = None"

definition zero_csys :: "nat \<Rightarrow> cs_cell_sys_t" where
  "zero_csys n = \<lparr>n_dofs = n, source = zero_values\<rparr>"

text \<open>Two source terms on the whole domain, defined by the values 2 and 3.\<close>

definition two_values :: "nat \<Rightarrow> cs_xdef_t option" where
  "two_values i = (if i = 0 then Some (by_value 3 0 2) else Some (by_value 3 0 3))"


text \<open>Two source terms, the first on the whole domain and the second on zone 1, and the
  second alone; the mask of the former; the cell 1; two bound evaluators.\<close>

definition zone_values :: "nat \<Rightarrow> cs_xdef_t option" where
  "zone_values i = (if i = 0 then Some (by_value 5 0 2) else Some (by_value 4 1 3))"

definition one_zone_value :: "nat \<Rightarrow> cs_xdef_t option" where
  "one_zone_value i = Some (by_value 4 1 3)"

definition example_mask :: "16 word list" where
  "example_mask = [1, 3, 1, 3]"

definition cell_1 :: cs_cell_mesh_t where
  "cell_1 = unit_tet\<lparr>c_id := 1\<rparr>"

definition dual_bindings :: "nat \<Rightarrow> cs_source_term_cellwise_t option" where
  "dual_bindings i = (if i < 2 then Some cs_source_term_dcsd_by_value else None)"

subsection \<open>Outcomes that do not depend on the scratch buffers\<close>

text \<open>
  Two arrays of values that agree on the first \<open>nd\<close> entries; two outcomes of an evaluator that
  are the same error, or that both keep the Hodge operator \<open>h\<close> of the cell builder and give
  arrays that agree on the first \<open>nd\<close> entries; an evaluator whose outcome, for a given
  definition and cell, is the same from any two such starting points: it reads nothing of
  the scratch buffers of the cell builder that it has not written.
\<close>

definition same_below :: "nat \<Rightarrow> (nat \<Rightarrow> real) \<Rightarrow> (nat \<Rightarrow> real) \<Rightarrow> bool" where
  "same_below nd v w \<longleftrightarrow> (\<forall>i<nd. v i = w i)"

definition same_outcome ::
    "nat \<Rightarrow> cs_locmat_t option
      \<Rightarrow> error + (cs_cell_builder_t \<times> (nat \<Rightarrow> real))
      \<Rightarrow> error + (cs_cell_builder_t \<times> (nat \<Rightarrow> real)) \<Rightarrow> bool" where
  "same_outcome nd h r r' \<longleftrightarrow>
     (case (r, r') of
        (Inl e, Inl e') \<Rightarrow> e = e'
      | (Inr (c, w), Inr (c', w')) \<Rightarrow> hdg c = h \<and> hdg c' = h \<and> same_below nd w w'
      | _ \<Rightarrow> False)"

definition scratch_independent ::
    "cs_env \<Rightarrow> cs_xdef_t option \<Rightarrow> cs_cell_mesh_t \<Rightarrow> nat \<Rightarrow> cs_locmat_t option
      \<Rightarrow> cs_source_term_cellwise_t \<Rightarrow> bool" where
  "scratch_independent env st cm nd h compute \<longleftrightarrow>
     (\<forall>cb cb' v v'. hdg cb = h \<and> hdg cb' = h \<and> same_below nd v v' \<longrightarrow>
        same_outcome nd h (compute env st cm cb v) (compute env st cm cb' v'))"


text \<open>
  More inputs of the examples: one source term on the whole domain, and the buffer it gives;
  a dual source term, alone and after a primal one.
\<close>

definition one_full_value :: "nat \<Rightarrow> cs_xdef_t option" where
  "one_full_value i = Some (by_value 5 0 2)"

definition half_values :: "nat \<Rightarrow> real" where
  "half_values v = (if v < 4 then 1/2 else 0)"

definition half_csys :: cs_cell_sys_t where
  "half_csys = \<lparr>n_dofs = 4, source = half_values\<rparr>"



subsection \<open>Connectivity of a cell\<close>

text \<open>
  The ten-point evaluator stores, face by face, the vertices of the face in \<^verbatim>\<open>cb->ids\<close> and
  indexes \<^verbatim>\<open>cb->values\<close> with the edges of the face. The cell view is well formed when the
  edges of every face are edges of the cell and the vertices of every edge are vertices of the
  cell.
\<close>

definition wf_connectivity :: "cs_cell_mesh_t \<Rightarrow> bool" where
  "wf_connectivity cm \<longleftrightarrow>
     (\<forall>f<n_fc cm. \<forall>i\<in>set [f2e_idx cm f..<f2e_idx cm (f + 1)]. f2e_ids cm i < n_ec cm)
     \<and> (\<forall>e<n_ec cm. e2v_ids cm (2 * e) < n_vc cm \<and> e2v_ids cm (2 * e + 1) < n_vc cm)"

section \<open>Properties\<close>

subsection \<open>Loops that update an array entry by entry\<close>

lemma fold_upd_pointwise:
  "fold (\<lambda>v vs. vs(v := g v (vs v))) [0..<n] f = (\<lambda>i. if i < n then g i (f i) else f i)"
  by (induction n) (auto simp: fun_eq_iff)

subsection \<open>The evaluator of a density given by a value\<close>

text \<open>
  C1. For a source term defined by the constant density \<open>inp 0\<close>,
  \<^verbatim>\<open>cs_source_term_dcsd_by_value\<close> adds \<open>inp 0 * wvc[v] * vol_c\<close> to the entry of each vertex
  \<open>v < n_vc\<close> of the cell and leaves the other entries and the cell builder as they are.
  (The assertion on the flag of the cell mesh must hold, or the build must disable it.)
\<close>

theorem dcsd_by_value_contribution:
  assumes "input st = Real_input inp"
    and "NDEBUG env \<or> cs_test_flag env (flag cm) (CS_CDO_LOCAL_PVQ env)"
  shows "cs_source_term_dcsd_by_value env (Some st) cm cb vals =
           Inr (cb, \<lambda>v. if v < n_vc cm then vals v + inp 0 * wvc cm v * vol_c cm else vals v)"
  using assms
  by (simp add: cs_source_term_dcsd_by_value_def assert_ok_def input_as_real_def
        fold_upd_pointwise [where g = "\<lambda>v x. x + inp 0 * wvc cm v * vol_c cm"])

text \<open>
  The scenario of the spec: the value 2 on the tetrahedron of volume 1 gives 1/2 at each of
  the four vertices, 2 in total.
\<close>

theorem dcsd_by_value_contribution_witness:
  "input (by_value 5 0 2) = Real_input (\<lambda>i. 2)
   \<and> (NDEBUG example_env \<or> cs_test_flag example_env (flag unit_tet) (CS_CDO_LOCAL_PVQ example_env))
   \<and> cs_source_term_dcsd_by_value example_env (Some (by_value 5 0 2)) unit_tet empty_cb (\<lambda>i. 0)
       = Inr (empty_cb, \<lambda>v. if v < 4 then 1/2 else 0)
   \<and> sum_list (map (\<lambda>v. if v < 4 then 1/2 else (0::real)) [0, 1, 2, 3::nat]) = 2"
proof -
  have i: "input (by_value 5 0 2) = Real_input (\<lambda>i. 2)"
    by (simp add: by_value_def)
  have a: "NDEBUG example_env \<or> cs_test_flag example_env (flag unit_tet) (CS_CDO_LOCAL_PVQ example_env)"
    by (simp add: example_env_def unit_tet_def test_flag_def)
  have r: "cs_source_term_dcsd_by_value example_env (Some (by_value 5 0 2)) unit_tet empty_cb (\<lambda>i. 0)
          = Inr (empty_cb, \<lambda>v. if v < n_vc unit_tet
                                then 0 + (\<lambda>i. 2) 0 * wvc unit_tet v * vol_c unit_tet else 0)"
    by (rule dcsd_by_value_contribution [OF i a])
  have "(\<lambda>v. if v < n_vc unit_tet then 0 + (\<lambda>i. 2) 0 * wvc unit_tet v * vol_c unit_tet else 0)
          = (\<lambda>v. if v < 4 then 1/2 else (0::real))"
    by (simp add: unit_tet_def cong: if_cong)
  with r have "cs_source_term_dcsd_by_value example_env (Some (by_value 5 0 2)) unit_tet empty_cb
                 (\<lambda>i. 0) = Inr (empty_cb, \<lambda>v. if v < 4 then 1/2 else 0)"
    by simp
  with i a show ?thesis by simp
qed

subsection \<open>A \<^verbatim>\<open>NULL\<close> definition\<close>

text \<open>
  C9. Each of the ten evaluators that \<^verbatim>\<open>cs_source_term_init\<close> can bind returns at once when
  the definition is \<^verbatim>\<open>NULL\<close>: no error, the cell builder and the array of values unchanged.
\<close>

theorem null_definition_is_noop:
  "cs_source_term_pvsp_by_value env None cm cb vals = Inr (cb, vals)
   \<and> cs_source_term_pvsp_by_analytic env None cm cb vals = Inr (cb, vals)
   \<and> cs_source_term_dcsd_by_value env None cm cb vals = Inr (cb, vals)
   \<and> cs_source_term_dcsd_bary_by_analytic env None cm cb vals = Inr (cb, vals)
   \<and> cs_source_term_dcsd_q1o1_by_analytic env None cm cb vals = Inr (cb, vals)
   \<and> cs_source_term_dcsd_q10o2_by_analytic env None cm cb vals = Inr (cb, vals)
   \<and> cs_source_term_dcsd_q5o3_by_analytic env None cm cb vals = Inr (cb, vals)
   \<and> cs_source_term_vcsp_by_value env None cm cb vals = Inr (cb, vals)
   \<and> cs_source_term_vcsp_by_analytic env None cm cb vals = Inr (cb, vals)
   \<and> cs_source_term_fbsd_by_value env None cm cb vals = Inr (cb, vals)
   \<and> cs_source_term_fbsd_bary_by_analytic env None cm cb vals = Inr (cb, vals)"
  by (simp add: cs_source_term_pvsp_by_value_def cs_source_term_pvsp_by_analytic_def
        cs_source_term_dcsd_by_value_def cs_source_term_dcsd_bary_by_analytic_def
        cs_source_term_dcsd_q1o1_by_analytic_def cs_source_term_dcsd_q10o2_by_analytic_def
        cs_source_term_dcsd_q5o3_by_analytic_def cs_source_term_vcsp_by_value_def
        cs_source_term_vcsp_by_analytic_def cs_source_term_fbsd_by_value_def
        cs_source_term_fbsd_bary_by_analytic_def)

subsection \<open>The limit on the number of source terms\<close>

text \<open>
  C8. With more than \<^verbatim>\<open>CS_N_MAX_SOURCE_TERMS\<close> source terms, \<^verbatim>\<open>cs_source_term_init\<close> ends
  with the error of line 314 and builds neither bindings nor mask.
\<close>

theorem init_rejects_too_many_source_terms:
  assumes "n_source_terms > CS_N_MAX_SOURCE_TERMS env"
  shows "cs_source_term_init env space_scheme n_source_terms source_terms compute_source sys_flag
           = Inl (Bft_error 314 '' Limitation to %d source terms has been reached!''
                    [int (CS_N_MAX_SOURCE_TERMS env)])"
  using assms by (simp add: cs_source_term_init_def)

theorem init_rejects_too_many_source_terms_witness:
  "9 > CS_N_MAX_SOURCE_TERMS example_env
   \<and> (cs_source_term_init example_env CS_SPACE_SCHEME_CDOVB 9 (\<lambda>i. Some (by_value 5 0 2))
        (\<lambda>i. None) 0 :: 16 init_result)
       = Inl (Bft_error 314 '' Limitation to %d source terms has been reached!'' [8])"
proof -
  have h: "9 > CS_N_MAX_SOURCE_TERMS example_env"
    by (simp add: example_env_def)
  show ?thesis
    using h init_rejects_too_many_source_terms [OF h, of CS_SPACE_SCHEME_CDOVB
        "\<lambda>i. Some (by_value 5 0 2)" "\<lambda>i. None" 0, where ?'a = 16]
    by (simp add: example_env_def)
qed

subsection \<open>Loops that may end the run\<close>

lemma for_each_append:
  "for_each body (xs @ ys) s =
     (case for_each body xs s of Inl e \<Rightarrow> Inl e | Inr s' \<Rightarrow> for_each body ys s')"
  by (induction xs arbitrary: s) (auto split: sum.splits)

lemma for_each_cong:
  "(\<And>i s. i \<in> set xs \<Longrightarrow> f i s = g i s) \<Longrightarrow> for_each f xs s = for_each g xs s"
  by (induction xs arbitrary: s) (auto split: sum.splits)

lemma fold_set_pointwise:
  "fold (\<lambda>v vs. vs(v := c v)) [0..<n] f = (\<lambda>i. if i < n then c i else f i)"
  by (induction n) (auto simp: fun_eq_iff)

lemma fold_add_pointwise:
  "fold (\<lambda>v vs. vs(v := vs v + c v)) [0..<n] f = (\<lambda>i. if i < n then f i + c i else f i)"
  by (induction n) (auto simp: fun_eq_iff)

subsection \<open>The barycentric evaluator: the division by the volume of the dual cell\<close>

lemma dcsd_bary_scale_ok:
  "\<forall>v\<in>set vs. vol_c cm * wvc cm v \<noteq> 0 \<Longrightarrow> for_each (dcsd_bary_scale cm) vs s \<noteq> Inl e"
proof (induction vs arbitrary: s)
  case Nil
  then show ?case by simp
next
  case (Cons v vs)
  obtain a b where s: "s = (a, b)" by (cases s)
  from Cons.prems have nz: "vol_c cm * wvc cm v \<noteq> 0" by simp
  then obtain s' where step: "dcsd_bary_scale cm v s = Inr s'"
    by (auto simp add: s dcsd_bary_scale_def Let_def)
  from Cons.prems have "\<forall>v\<in>set vs. vol_c cm * wvc cm v \<noteq> 0" by simp
  from Cons.IH [OF this] have "for_each (dcsd_bary_scale cm) vs s' \<noteq> Inl e" .
  with step show ?case by simp
qed


lemma dcsd_bary_result:
  assumes "input st = Analytic_input func"
    and "NDEBUG env \<or> cs_test_flag env (flag cm)
              (CS_CDO_LOCAL_PVQ env OR CS_CDO_LOCAL_PFQ env OR CS_CDO_LOCAL_HFQ env OR
               CS_CDO_LOCAL_FE env OR CS_CDO_LOCAL_FEQ env OR CS_CDO_LOCAL_EV env)"
    and "\<forall>v<n_vc cm. vol_c cm * wvc cm v \<noteq> 0"
  shows "\<exists>cb' xgv. cs_source_term_dcsd_bary_by_analytic env (Some st) cm cb vals
           = Inr (cb', \<lambda>v. if v < n_vc cm
                           then vol_c cm * wvc cm v * call_func func (t_cur env) (n_vc cm) xgv v
                           else vals v)"
proof -
  from assms(3) have "\<forall>v\<in>set [0..<n_vc cm]. vol_c cm * wvc cm v \<noteq> 0" by auto
  from dcsd_bary_scale_ok [OF this]
  have ok: "\<And>s e. (for_each (dcsd_bary_scale cm) [0..<n_vc cm] s = Inl e) = False"
    by simp
  show ?thesis
    unfolding cs_source_term_dcsd_bary_by_analytic_def Let_def
    using assms(1,2)
    by (auto simp add: ok input_as_analytic_def assert_ok_def fold_set_pointwise write_retval_def
          cong: if_cong split: sum.splits prod.splits)
qed




subsection \<open>Evaluators that overwrite the array of values\<close>

text \<open>
  C2. Three of the ten evaluators assign their contribution where their documentation says
  "add it the given array of values": \<^verbatim>\<open>cs_source_term_fbsd_by_value\<close>,
  \<^verbatim>\<open>cs_source_term_fbsd_bary_by_analytic\<close> (\<^verbatim>\<open>values[cm->n_fc] = ...\<close>) and
  \<^verbatim>\<open>cs_source_term_dcsd_bary_by_analytic\<close> (\<^verbatim>\<open>values[v] = ...\<close>). On an array that holds 10
  in each entry, a contribution of 2 (of 1/2 per vertex for the barycentric evaluator) leaves
  2 (1/2), not 12 (21/2). Through the dispatcher, of two source terms of values 2 and 3 on a
  cell of volume 1 under the face-based scheme, only the last one is left: 3, not 5.
\<close>

theorem overwriting_evaluators:
  "cs_source_term_fbsd_by_value example_env (Some (by_value 3 0 2)) unit_tet empty_cb ten_values
     = Inr (empty_cb, ten_values(4 := 2))
   \<and> cs_source_term_fbsd_bary_by_analytic example_env
        (Some (by_analytic 3 0 CS_QUADRATURE_BARY const_two)) unit_tet empty_cb ten_values
     = Inr (empty_cb, ten_values(4 := 2))
   \<and> (case cs_source_term_dcsd_bary_by_analytic example_env
        (Some (by_analytic 5 0 CS_QUADRATURE_BARY const_two)) unit_tet empty_cb ten_values of
        Inl e \<Rightarrow> False
      | Inr (cb, vals) \<Rightarrow> map vals [0, 1, 2, 3] = [1/2, 1/2, 1/2, 1/2])
   \<and> (case cs_source_term_init example_env CS_SPACE_SCHEME_CDOFB 2 two_values no_bindings 4 of
        Inl e \<Rightarrow> False
      | Inr (msh_flag, compute_source, sys_flag, source_mask) \<Rightarrow>
          source_mask = (None :: 16 word list option)
          \<and> (case cs_source_term_compute_cellwise example_env 2 two_values unit_tet sys_flag
                    source_mask compute_source empty_cb (zero_csys 5) of
                Inl e \<Rightarrow> False
              | Inr (cb, csys) \<Rightarrow> source csys 4 = 3))"
proof (intro conjI)
  show "cs_source_term_fbsd_by_value example_env (Some (by_value 3 0 2)) unit_tet empty_cb ten_values
     = Inr (empty_cb, ten_values(4 := 2))"
    by (simp add: cs_source_term_fbsd_by_value_def input_as_real_def by_value_def unit_tet_def)
  show "cs_source_term_fbsd_bary_by_analytic example_env
        (Some (by_analytic 3 0 CS_QUADRATURE_BARY const_two)) unit_tet empty_cb ten_values
     = Inr (empty_cb, ten_values(4 := 2))"
    by (simp add: cs_source_term_fbsd_bary_by_analytic_def input_as_analytic_def by_analytic_def
          unit_tet_def call_func_def const_two_def)
  have i: "input (by_analytic 5 0 CS_QUADRATURE_BARY const_two) = Analytic_input const_two"
    by (simp add: by_analytic_def)
  have a: "NDEBUG example_env \<or> cs_test_flag example_env (flag unit_tet)
              (CS_CDO_LOCAL_PVQ example_env OR CS_CDO_LOCAL_PFQ example_env OR
               CS_CDO_LOCAL_HFQ example_env OR CS_CDO_LOCAL_FE example_env OR
               CS_CDO_LOCAL_FEQ example_env OR CS_CDO_LOCAL_EV example_env)"
    by (simp add: example_env_def unit_tet_def test_flag_def)
  have p: "\<forall>v<n_vc unit_tet. vol_c unit_tet * wvc unit_tet v \<noteq> 0"
    by (simp add: unit_tet_def)
  from dcsd_bary_result [OF i a p, of empty_cb ten_values]
  obtain cb' xgv where "cs_source_term_dcsd_bary_by_analytic example_env
        (Some (by_analytic 5 0 CS_QUADRATURE_BARY const_two)) unit_tet empty_cb ten_values
      = Inr (cb', \<lambda>v. if v < n_vc unit_tet
                       then vol_c unit_tet * wvc unit_tet v
                            * call_func const_two (t_cur example_env) (n_vc unit_tet) xgv v
                       else ten_values v)"
    by blast
  then show "case cs_source_term_dcsd_bary_by_analytic example_env
        (Some (by_analytic 5 0 CS_QUADRATURE_BARY const_two)) unit_tet empty_cb ten_values of
        Inl e \<Rightarrow> False
      | Inr (cb, vals) \<Rightarrow> map vals [0, 1, 2, 3] = [1/2, 1/2, 1/2, 1/2]"
    by (simp add: call_func_def const_two_def unit_tet_def)
  have u2: "[0..<2] = [0, 1::nat]" by (simp add: upt_rec)
  have "cs_source_term_init example_env CS_SPACE_SCHEME_CDOFB 2 two_values no_bindings 4
          = Inr (0, (fold (\<lambda>i cs. cs(i := None)) [0..<8] no_bindings)
                      (0 := Some cs_source_term_fbsd_by_value, 1 := Some cs_source_term_fbsd_by_value),
                 4, (None :: 16 word list option))"
    by (simp add: cs_source_term_init_def example_env_def init_source_term_def init_cdofb_def
          two_values_def by_value_def u2)
  then show "case cs_source_term_init example_env CS_SPACE_SCHEME_CDOFB 2 two_values no_bindings 4 of
        Inl e \<Rightarrow> False
      | Inr (msh_flag, compute_source, sys_flag, source_mask) \<Rightarrow>
          source_mask = (None :: 16 word list option)
          \<and> (case cs_source_term_compute_cellwise example_env 2 two_values unit_tet sys_flag
                    source_mask compute_source empty_cb (zero_csys 5) of
                Inl e \<Rightarrow> False
              | Inr (cb, csys) \<Rightarrow> source csys 4 = 3)"
    by (simp add: cs_source_term_compute_cellwise_def call_compute_def
          cs_source_term_fbsd_by_value_def input_as_real_def two_values_def by_value_def
          zero_csys_def unit_tet_def example_env_def u2)
qed

subsection \<open>Evaluation of loops on the example\<close>

lemma upt_0_2: "[0..<2] = [0, 1::nat]"
  by (simp add: upt_rec)

lemma upt_0_4: "[0..<4] = [0, 1, 2, 3::nat]"
  by (simp add: upt_rec)


lemma rep4: "replicate 4 (0::16 word) = [0,0,0,0]"
  by (simp add: numeral_eq_Suc)

lemma init_loop_zone_values:
  "for_each (init_source_term example_env CS_SPACE_SCHEME_CDOVB zone_values) [0..<2]
     (0, 4, False, cs0) = Inr (2, 4, True, cs0(0 := Some cs_source_term_dcsd_by_value, 1 := Some cs_source_term_dcsd_by_value))"
  by (simp add: example_env_def init_source_term_def init_cdovb_def
        zone_values_def by_value_def upt_0_2)

lemma set_mask_zone_values:
  "for_each (\<lambda>st_id. set_mask example_env (zone_values st_id) st_id) [0..<2]
     ([0, 0, 0, 0] :: 16 word list) = Inr example_mask"
  by (simp add: example_env_def zone_values_def by_value_def upt_0_2 upt_0_4 set_mask_def
        st_mask_of_def or_mask_at_def example_zone_def example_mask_def)


lemma example_env_nmax: "CS_N_MAX_SOURCE_TERMS example_env = 8"
  by (simp add: example_env_def)

lemma example_env_n_cells: "quant_n_cells example_env = 4"
  by (simp add: example_env_def)

lemma init_zone_values:
  "\<exists>msh cs sf. cs_source_term_init example_env CS_SPACE_SCHEME_CDOVB 2 zone_values no_bindings 4
     = Inr (msh, cs, sf, Some example_mask)"
  by (simp add: cs_source_term_init_def Let_def example_env_nmax example_env_n_cells rep4
        init_loop_zone_values set_mask_zone_values)

lemma init_step_one_zone_value:
  "init_source_term example_env CS_SPACE_SCHEME_CDOVB one_zone_value 0 (0, 4, False, cs0)
     = Inr (2, 4, True, cs0(0 := Some cs_source_term_dcsd_by_value))"
  by (simp add: example_env_def init_source_term_def init_cdovb_def one_zone_value_def by_value_def)

lemma set_mask_one_zone_value:
  "set_mask example_env (one_zone_value 0) 0 ([0, 0, 0, 0] :: 16 word list) = Inr [0, 1, 0, 1]"
  by (simp add: example_env_def one_zone_value_def by_value_def upt_0_2 set_mask_def
        st_mask_of_def or_mask_at_def example_zone_def)

lemma init_one_zone_value:
  "\<exists>msh cs sf. cs_source_term_init example_env CS_SPACE_SCHEME_CDOVB 1 one_zone_value no_bindings 4
     = Inr (msh, cs, sf, Some ([0, 1, 0, 1] :: 16 word list))"
  by (simp add: cs_source_term_init_def Let_def example_env_nmax example_env_n_cells rep4
        init_step_one_zone_value set_mask_one_zone_value)

subsection \<open>The mask that \<^verbatim>\<open>cs_source_term_init\<close> builds\<close>

lemma or_mask_loop:
  "for_each (\<lambda>i. or_mask_at m (g i)) xs cm = Inr cm' \<Longrightarrow>
     length cm' = length cm
     \<and> (\<forall>c<length cm. cm' ! c = (if c \<in> g ` set xs then cm ! c OR m else cm ! c))"
proof (induction xs arbitrary: cm)
  case Nil
  then show ?case by simp
next
  case (Cons i xs)
  from Cons.prems have inb: "g i < length cm"
    by (auto simp: or_mask_at_def split: if_splits)
  define cm1 where "cm1 = cm[g i := cm ! g i OR m]"
  from inb have step: "or_mask_at m (g i) cm = Inr cm1"
    by (simp add: or_mask_at_def cm1_def)
  with Cons.prems have "for_each (\<lambda>i. or_mask_at m (g i)) xs cm1 = Inr cm'" by simp
  from Cons.IH [OF this]
  have ih: "length cm' = length cm1"
    "\<forall>c<length cm1. cm' ! c = (if c \<in> g ` set xs then cm1 ! c OR m else cm1 ! c)"
    by auto
  have l: "length cm1 = length cm" by (simp add: cm1_def)
  have "cm' ! c = (if c \<in> g ` set (i # xs) then cm ! c OR m else cm ! c)" if "c < length cm" for c
  proof -
    from that l ih(2) have "cm' ! c = (if c \<in> g ` set xs then cm1 ! c OR m else cm1 ! c)"
      by simp
    moreover have "cm1 ! c = (if c = g i then cm ! c OR m else cm ! c)"
      using that by (simp add: cm1_def nth_list_update)
    ultimately show ?thesis by (auto simp: or.assoc)
  qed
  with ih(1) l show ?case by simp
qed

lemma st_mask_of_Inr:
  "st_mask_of st_id = Inr (m :: 'a::len word) \<Longrightarrow> st_id < 31 \<and> m = 2 ^ st_id"
  by (auto simp: st_mask_of_def split: if_splits)

lemma set_mask_result:
  assumes "set_mask env st st_id cm = Inr cm'" and "length cm = quant_n_cells env"
  shows "st \<noteq> None \<and> st_id < 31 \<and> length cm' = length cm
         \<and> (\<forall>c<length cm. cm' ! c = (if covers env st c then cm ! c OR 2 ^ st_id else cm ! c))"
proof (cases st)
  case None
  with assms show ?thesis by (simp add: set_mask_def)
next
  case (Some d)
  with assms(1) obtain m :: "'a word" where m: "st_mask_of st_id = Inr m"
    by (auto simp: set_mask_def split: sum.splits)
  then have m2: "st_id < 31" "m = 2 ^ st_id" using st_mask_of_Inr by blast+
  show ?thesis
  proof (cases "meta d AND CS_FLAG_FULL_LOC env \<noteq> 0")
    case True
    with assms(1) Some m
    have "for_each (\<lambda>i. or_mask_at m (id i)) [0..<quant_n_cells env] cm = Inr cm'"
      by (simp add: set_mask_def)
    from or_mask_loop [OF this] assms(2) True Some m2 show ?thesis
      by (simp add: covers_def full_domain_def)
  next
    case False
    define z where "z = cs_volume_zone_by_id env (z_id d)"
    from assms(1) Some m False
    have "for_each (\<lambda>i. or_mask_at m (cell_ids z i)) [0..<z_n_cells z] cm = Inr cm'"
      by (simp add: set_mask_def z_def Let_def)
    from or_mask_loop [OF this] False Some m2 show ?thesis
      by (simp add: covers_def full_domain_def in_zone_def z_def Let_def)
  qed
qed

lemma mask_loop:
  "for_each (\<lambda>st_id. set_mask env (sts st_id) st_id) [0..<n] cm0 = Inr (m :: 'a::len word list) \<Longrightarrow>
   length cm0 = quant_n_cells env \<Longrightarrow>
     length m = length cm0 \<and> (\<forall>i<n. sts i \<noteq> None \<and> i < 31)
     \<and> (\<forall>c<length cm0. \<forall>j. bit (m ! c) j \<longleftrightarrow>
           bit (cm0 ! c) j \<or> (j < n \<and> j < LENGTH('a) \<and> covers env (sts j) c))"
proof (induction n arbitrary: m)
  case 0
  then show ?case by simp
next
  case (Suc n)
  from Suc.prems(1) obtain m1 where
    m1: "for_each (\<lambda>st_id. set_mask env (sts st_id) st_id) [0..<n] cm0 = Inr m1"
    and last: "set_mask env (sts n) n m1 = Inr m"
    by (auto simp: for_each_append split: sum.splits)
  from Suc.IH [OF m1 Suc.prems(2)]
  have ih: "length m1 = length cm0" "\<forall>i<n. sts i \<noteq> None \<and> i < 31"
    "\<forall>c<length cm0. \<forall>j. bit (m1 ! c) j \<longleftrightarrow>
           bit (cm0 ! c) j \<or> (j < n \<and> j < LENGTH('a) \<and> covers env (sts j) c)"
    by auto
  from ih(1) Suc.prems(2) have "length m1 = quant_n_cells env" by simp
  from set_mask_result [OF last this]
  have r: "sts n \<noteq> None" "n < 31" "length m = length m1"
    "\<forall>c<length m1. m ! c = (if covers env (sts n) c then m1 ! c OR 2 ^ n else m1 ! c)"
    by auto
  have "bit (m ! c) j \<longleftrightarrow>
           bit (cm0 ! c) j \<or> (j < Suc n \<and> j < LENGTH('a) \<and> covers env (sts j) c)"
    if "c < length cm0" for c j
  proof -
    from that ih(1) r(4)
    have "m ! c = (if covers env (sts n) c then m1 ! c OR 2 ^ n else m1 ! c)" by simp
    moreover from that ih(3)
    have "bit (m1 ! c) j \<longleftrightarrow>
           bit (cm0 ! c) j \<or> (j < n \<and> j < LENGTH('a) \<and> covers env (sts j) c)" by simp
    ultimately show ?thesis
      by (auto simp: bit_or_iff bit_exp_iff less_Suc_eq)
  qed
  with ih r show ?case by (auto simp: less_Suc_eq)
qed


lemma init_source_term_need_mask:
  "init_source_term env scheme sts i (msh, sf, nm, cs) = Inr (msh', sf', nm', cs') \<Longrightarrow>
     sts i \<noteq> None \<and> (nm' \<longleftrightarrow> nm \<or> \<not> full_domain env (sts i))"
  by (auto simp: init_source_term_def full_domain_def Let_def
        split: option.splits sum.splits prod.splits if_splits)

lemma init_loop_need_mask:
  "for_each (init_source_term env scheme sts) [0..<n] (msh, sf, nm, cs) = Inr (msh', sf', nm', cs') \<Longrightarrow>
     (\<forall>i<n. sts i \<noteq> None) \<and> (nm' \<longleftrightarrow> nm \<or> (\<exists>i<n. \<not> full_domain env (sts i)))"
proof (induction n arbitrary: msh' sf' nm' cs')
  case 0
  then show ?case by simp
next
  case (Suc n)
  from Suc.prems obtain a b c d where
    first: "for_each (init_source_term env scheme sts) [0..<n] (msh, sf, nm, cs) = Inr (a, b, c, d)"
    and last: "init_source_term env scheme sts n (a, b, c, d) = Inr (msh', sf', nm', cs')"
    by (auto simp: for_each_append split: sum.splits)
  from Suc.IH [OF first] init_source_term_need_mask [OF last]
  show ?case by (auto simp: less_Suc_eq)
qed

lemma init_mask_bits:
  assumes "cs_source_term_init env scheme n sts cs sf = Inr (msh, cs', sf', smask)"
    and "CS_N_MAX_SOURCE_TERMS env \<le> LENGTH('a::len)"
  shows "(smask = None \<longleftrightarrow> (\<forall>i<n. full_domain env (sts i)))
     \<and> (\<forall>m :: 'a word list. smask = Some m \<longrightarrow>
           length m = quant_n_cells env \<and> n \<le> 31
           \<and> (\<forall>c<quant_n_cells env. \<forall>j. bit (m ! c) j \<longleftrightarrow> j < n \<and> covers env (sts j) c))"
proof (cases "n = 0")
  case True
  with assms(1) show ?thesis by (auto simp: cs_source_term_init_def split: if_splits)
next
  case False
  from assms(1) have le: "n \<le> CS_N_MAX_SOURCE_TERMS env"
    by (auto simp: cs_source_term_init_def split: if_splits)
  define cs0 where "cs0 = fold (\<lambda>i cs. cs(i := None)) [0..<CS_N_MAX_SOURCE_TERMS env] cs"
  from assms(1) False le obtain a b c d where
    loop: "for_each (init_source_term env scheme sts) [0..<n] (0, sf, False, cs0) = Inr (a, b, c, d)"
    by (auto simp: cs_source_term_init_def Let_def cs0_def split: sum.splits)
  from init_loop_need_mask [OF loop]
  have nm: "c \<longleftrightarrow> (\<exists>i<n. \<not> full_domain env (sts i))" by simp
  from le have nle: "\<not> CS_N_MAX_SOURCE_TERMS env < n" by simp
  have eq: "cs_source_term_init env scheme n sts cs sf =
      (if c then (case for_each (\<lambda>st_id. set_mask env (sts st_id) st_id) [0..<n]
                         (replicate (quant_n_cells env) 0) of
                    Inl e \<Rightarrow> Inl e
                  | Inr mask1 \<Rightarrow> Inr (a, d, b, Some mask1))
       else Inr (a, d, b, (None :: 'a word list option)))"
    using loop \<open>n \<noteq> 0\<close> nle
    by (simp add: cs_source_term_init_def Let_def cs0_def)
  show ?thesis
  proof (cases c)
    case False
    with eq assms(1) have "smask = None" by simp
    with False nm show ?thesis by simp
  next
    case True
    with eq assms(1) obtain m :: "'a word list" where
      m: "for_each (\<lambda>st_id. set_mask env (sts st_id) st_id) [0..<n]
            (replicate (quant_n_cells env) 0) = Inr m"
      and sm: "smask = Some m"
      by (auto split: sum.splits)
    from mask_loop [OF m]
    have r: "length m = quant_n_cells env" "\<forall>i<n. i < 31"
      "\<forall>c<quant_n_cells env. \<forall>j. bit (m ! c) j \<longleftrightarrow>
           (j < n \<and> j < LENGTH('a) \<and> covers env (sts j) c)"
      by auto
    from r(2) have "n \<le> 31" by (metis not_less order_refl)
    moreover from le assms(2) have "\<And>j. j < n \<Longrightarrow> j < LENGTH('a)" by simp
    ultimately show ?thesis using True nm sm r by auto
  qed
qed

text \<open>
  C3. When \<^verbatim>\<open>cs_source_term_init\<close> returns, the mask is \<^verbatim>\<open>NULL\<close> iff each of the \<open>n\<close>
  definitions has the full-domain flag; otherwise it has one word for each cell of the mesh,
  and bit \<open>i\<close> of the word of cell \<open>c\<close> is set iff \<open>i < n\<close> and definition \<open>i\<close> covers the full
  domain or \<open>c\<close> belongs to its zone. (The mask word must have a bit for each of the
  \<^verbatim>\<open>CS_N_MAX_SOURCE_TERMS\<close> definitions.)
\<close>

theorem init_source_mask:
  assumes "cs_source_term_init env scheme n sts cs sf = Inr (msh, cs', sf', smask)"
    and "CS_N_MAX_SOURCE_TERMS env \<le> LENGTH('a::len)"
  shows "(smask = None \<longleftrightarrow> (\<forall>i<n. full_domain env (sts i)))
     \<and> (\<forall>m :: 'a word list. smask = Some m \<longrightarrow>
           length m = quant_n_cells env
           \<and> (\<forall>c<quant_n_cells env. \<forall>i.
                 bit (m ! c) i \<longleftrightarrow> i < n \<and> (full_domain env (sts i) \<or> in_zone env (sts i) c)))"
  using init_mask_bits [OF assms] by (simp add: covers_def)

theorem init_source_mask_witness:
  "CS_N_MAX_SOURCE_TERMS example_env \<le> LENGTH(16)
   \<and> (case cs_source_term_init example_env CS_SPACE_SCHEME_CDOVB 2 zone_values no_bindings 4 of
         Inl e \<Rightarrow> False
       | Inr (msh, cs, sf, smask) \<Rightarrow> smask = Some example_mask)
   \<and> \<not> full_domain example_env (zone_values 1)
   \<and> length example_mask = quant_n_cells example_env
   \<and> bit (example_mask ! 3) 0 \<and> bit (example_mask ! 3) 1 \<and> \<not> bit (example_mask ! 3) 2
   \<and> bit (example_mask ! 2) 0 \<and> \<not> bit (example_mask ! 2) 1
   \<and> full_domain example_env (zone_values 0)
   \<and> in_zone example_env (zone_values 1) 3 \<and> \<not> in_zone example_env (zone_values 1) 2"
proof -
  have n: "CS_N_MAX_SOURCE_TERMS example_env \<le> LENGTH(16)"
    by (simp add: example_env_def)
  from init_zone_values obtain msh cs sf where
    i: "cs_source_term_init example_env CS_SPACE_SCHEME_CDOVB 2 zone_values no_bindings 4
          = Inr (msh, cs, sf, Some example_mask)"
    by blast
  have z: "full_domain example_env (zone_values 0)" "\<not> full_domain example_env (zone_values 1)"
    "in_zone example_env (zone_values 1) 3" "\<not> in_zone example_env (zone_values 1) 2"
    by (simp_all add: full_domain_def in_zone_def zone_values_def by_value_def example_env_def
          example_zone_def upt_0_2 del: set_upt)
  have q: "quant_n_cells example_env = 4"
    by (simp add: example_env_def)
  from init_source_mask [OF i n]
  have "length example_mask = quant_n_cells example_env"
    and b: "\<forall>c<quant_n_cells example_env. \<forall>i. bit (example_mask ! c) i \<longleftrightarrow>
               i < 2 \<and> (full_domain example_env (zone_values i) \<or> in_zone example_env (zone_values i) c)"
    by simp_all
  moreover from b q z
  have "bit (example_mask ! 3) 0" "bit (example_mask ! 3) 1" "\<not> bit (example_mask ! 3) 2"
    "bit (example_mask ! 2) 0" "\<not> bit (example_mask ! 2) 1"
    by simp_all
  ultimately show ?thesis using n i z by simp
qed

subsection \<open>The dispatcher and the mask\<close>

lemma compute_masked_bit_set:
  assumes "c_id cm < length m" and "bit (m ! c_id cm) i" and "LENGTH('a::len) \<le> 31"
  shows "compute_masked env sts cm (m :: 'a word list) cs i s = call_compute env sts cm cs i s"
proof -
  from assms(2) have "i < LENGTH('a)" by (rule bit_imp_le_length)
  with assms(3) have "i < 31" by simp
  moreover from assms(2) have "m ! c_id cm AND 2 ^ i \<noteq> 0"
    by (simp add: and_exp_eq_0_iff_not_bit)
  ultimately show ?thesis using assms(1)
    by (simp add: compute_masked_def st_mask_of_def)
qed

lemma compute_masked_bit_clear:
  assumes "c_id cm < length m" and "\<not> bit (m ! c_id cm) i" and "i < 31"
  shows "compute_masked env sts cm (m :: 'a::len word list) cs i s = Inr s"
proof -
  from assms(2) have "m ! c_id cm AND 2 ^ i = 0"
    by (simp add: and_exp_eq_0_iff_not_bit)
  with assms(1,3) show ?thesis
    by (simp add: compute_masked_def st_mask_of_def)
qed

text \<open>
  C4. For a cell whose mask word has the bit of each of the \<open>n\<close> definitions set, the
  dispatcher gives with the mask what it gives with \<^verbatim>\<open>source_mask == NULL\<close>, whatever the
  definitions and the bound evaluators. (The mask word is narrower than an \<^verbatim>\<open>int\<close>, so that
  \<^verbatim>\<open>1 << st_id\<close> is defined for each of its bits.)
\<close>

theorem no_mask_is_full_mask:
  assumes "c_id cm < length m" and "\<forall>i<n. bit (m ! c_id cm) i" and "LENGTH('a::len) \<le> 31"
  shows "cs_source_term_compute_cellwise env n sts cm sys_flag (Some (m :: 'a word list)) cs cb csys
           = cs_source_term_compute_cellwise env n sts cm sys_flag (None :: 'a word list option)
               cs cb csys"
proof -
  have "for_each (compute_masked env sts cm m cs) [0..<n] s
          = for_each (call_compute env sts cm cs) [0..<n] s" for s
    using assms by (intro for_each_cong compute_masked_bit_set) auto
  then show ?thesis by (simp add: cs_source_term_compute_cellwise_def Let_def)
qed


theorem no_mask_is_full_mask_witness:
  "c_id cell_1 < length example_mask
   \<and> bit (example_mask ! c_id cell_1) 0 \<and> bit (example_mask ! c_id cell_1) 1
   \<and> LENGTH(16) \<le> 31
   \<and> cs_source_term_compute_cellwise example_env 2 zone_values cell_1 4 (Some example_mask)
        dual_bindings empty_cb (zero_csys 4)
     = cs_source_term_compute_cellwise example_env 2 zone_values cell_1 4
        (None :: 16 word list option) dual_bindings empty_cb (zero_csys 4)"
proof -
  have c: "c_id cell_1 < length example_mask"
    by (simp add: cell_1_def example_mask_def)
  have b: "bit (example_mask ! c_id cell_1) 0" "bit (example_mask ! c_id cell_1) 1"
    by (simp_all add: cell_1_def example_mask_def)
  then have a: "\<forall>i<2. bit (example_mask ! c_id cell_1) i"
    by (auto simp: less_2_cases_iff)
  have l: "LENGTH(16) \<le> 31" by simp
  from no_mask_is_full_mask [OF c a l] c b l show ?thesis by simp
qed

text \<open>
  C5. With the mask that \<^verbatim>\<open>cs_source_term_init\<close> built, on a cell outside the zone of
  definition \<open>i\<close>, which does not cover the full domain, the dispatcher does not call the
  evaluator of \<open>i\<close>: its result is the same whatever is bound at \<open>i\<close>. When the definition is
  the only one, the dispatcher leaves the \<open>n_dofs\<close> entries of the buffer at zero.
\<close>

theorem masked_out_not_invoked:
  assumes "cs_source_term_init env scheme n sts cs0 sf0 = Inr (msh, cs, sf, Some m)"
    and "CS_N_MAX_SOURCE_TERMS env \<le> LENGTH('a::len)"
    and "i < n"
    and "\<not> full_domain env (sts i)"
    and "\<not> in_zone env (sts i) (c_id cm)"
    and "c_id cm < quant_n_cells env"
  shows "(\<forall>f. cs_source_term_compute_cellwise env n sts cm sys_flag (Some (m :: 'a word list))
               (cs(i := f)) cb csys
             = cs_source_term_compute_cellwise env n sts cm sys_flag (Some m) cs cb csys)
     \<and> (n = 1 \<longrightarrow>
           cs_source_term_compute_cellwise env n sts cm sys_flag (Some m) cs cb csys
             = Inr (cb, csys\<lparr>source := (\<lambda>j. if j < n_dofs csys then 0 else source csys j)\<rparr>))"
proof -
  from init_mask_bits [OF assms(1,2)] assms(3-6)
  have len: "c_id cm < length m" and n31: "i < 31" and clear: "\<not> bit (m ! c_id cm) i"
    by (auto simp: covers_def)
  have skip: "compute_masked env sts cm m cs' i s = Inr s" for cs' s
    using len clear n31 by (rule compute_masked_bit_clear)
  have other: "compute_masked env sts cm m (cs(i := f)) j s = compute_masked env sts cm m cs j s"
    for f j s
  proof (cases "j = i")
    case True
    then show ?thesis by (simp add: skip)
  next
    case False
    then have "call_compute env sts cm (cs(i := f)) j s = call_compute env sts cm cs j s"
      by (cases s) (simp add: call_compute_def)
    then show ?thesis
      by (simp add: compute_masked_def split: sum.splits)
  qed
  have "for_each (compute_masked env sts cm m (cs(i := f))) [0..<n] s
          = for_each (compute_masked env sts cm m cs) [0..<n] s" for f s
    by (rule for_each_cong) (rule other)
  then have 1: "\<forall>f. cs_source_term_compute_cellwise env n sts cm sys_flag (Some m) (cs(i := f)) cb csys
             = cs_source_term_compute_cellwise env n sts cm sys_flag (Some m) cs cb csys"
    by (simp add: cs_source_term_compute_cellwise_def Let_def)
  have 2: "cs_source_term_compute_cellwise env n sts cm sys_flag (Some m) cs cb csys
             = Inr (cb, csys\<lparr>source := (\<lambda>j. if j < n_dofs csys then 0 else source csys j)\<rparr>)"
    if "n = 1"
  proof -
    from that assms(3) have "i = 0" by simp
    with skip have "compute_masked env sts cm m cs 0 s = Inr s" for s by simp
    with that show ?thesis
      by (simp add: cs_source_term_compute_cellwise_def Let_def
            fold_set_pointwise [where c = "\<lambda>i. 0"])
  qed
  from 1 2 show ?thesis by blast
qed

theorem masked_out_not_invoked_witness:
  "CS_N_MAX_SOURCE_TERMS example_env \<le> LENGTH(16)
   \<and> (case cs_source_term_init example_env CS_SPACE_SCHEME_CDOVB 1 one_zone_value no_bindings 4 of
         Inl e \<Rightarrow> False
       | Inr (msh, cs, sf, smask) \<Rightarrow>
           smask = Some ([0, 1, 0, 1] :: 16 word list)
           \<and> cs_source_term_compute_cellwise example_env 1 one_zone_value unit_tet 4 smask
                (cs(0 := None)) empty_cb (zero_csys 4)
               = cs_source_term_compute_cellwise example_env 1 one_zone_value unit_tet 4 smask
                cs empty_cb (zero_csys 4)
           \<and> cs_source_term_compute_cellwise example_env 1 one_zone_value unit_tet 4 smask
                cs empty_cb (zero_csys 4) = Inr (empty_cb, zero_csys 4))
   \<and> (0::nat) < 1
   \<and> \<not> full_domain example_env (one_zone_value 0)
   \<and> \<not> in_zone example_env (one_zone_value 0) (c_id unit_tet)
   \<and> c_id unit_tet < quant_n_cells example_env"
proof -
  have n: "CS_N_MAX_SOURCE_TERMS example_env \<le> LENGTH(16)"
    by (simp add: example_env_def)
  from init_one_zone_value obtain msh cs sf where
    i: "cs_source_term_init example_env CS_SPACE_SCHEME_CDOVB 1 one_zone_value no_bindings 4
          = Inr (msh, cs, sf, Some ([0, 1, 0, 1] :: 16 word list))"
    by blast
  have l: "(0::nat) < 1" by simp
  have f: "\<not> full_domain example_env (one_zone_value 0)"
    by (simp add: full_domain_def one_zone_value_def by_value_def example_env_def)
  have z: "\<not> in_zone example_env (one_zone_value 0) (c_id unit_tet)"
    by (simp add: in_zone_def one_zone_value_def by_value_def example_env_def example_zone_def
          upt_0_2 unit_tet_def del: set_upt)
  have c: "c_id unit_tet < quant_n_cells example_env"
    by (simp add: unit_tet_def example_env_def)
  have e: "zero_csys 4\<lparr>source := (\<lambda>j. if j < n_dofs (zero_csys 4) then 0 else source (zero_csys 4) j)\<rparr>
             = zero_csys 4"
    by (simp add: zero_csys_def zero_values_def fun_eq_iff)
  from masked_out_not_invoked [OF i n l f z c, of 4 empty_cb "zero_csys 4"] e
  show ?thesis using n i l f z c by simp
qed

subsection \<open>Two runs of the dispatcher\<close>

lemma same_outcome_Inr:
  "same_outcome nd h (Inr (c, w)) r' \<longleftrightarrow>
     (\<exists>c' w'. r' = Inr (c', w') \<and> hdg c = h \<and> hdg c' = h \<and> same_below nd w w')"
  by (auto simp: same_outcome_def split: sum.splits)

lemma same_outcome_Inl:
  "same_outcome nd h (Inl e) r' \<longleftrightarrow> r' = Inl e"
  by (auto simp: same_outcome_def split: sum.splits)

lemma loop_same_outcome:
  assumes "\<And>i cb cb' v v'. i \<in> set xs \<Longrightarrow> hdg cb = h \<Longrightarrow> hdg cb' = h \<Longrightarrow> same_below nd v v'
             \<Longrightarrow> same_outcome nd h (body i (cb, v)) (body i (cb', v'))"
    and "hdg cb = h" and "hdg cb' = h" and "same_below nd v v'"
  shows "same_outcome nd h (for_each body xs (cb, v)) (for_each body xs (cb', v'))"
  using assms
proof (induction xs arbitrary: cb cb' v v')
  case Nil
  then show ?case by (simp add: same_outcome_def)
next
  case (Cons i xs)
  have step: "same_outcome nd h (body i (cb, v)) (body i (cb', v'))"
    using Cons.prems by simp
  show ?case
  proof (cases "body i (cb, v)")
    case (Inl e)
    with step have "body i (cb', v') = Inl e" by (simp add: same_outcome_Inl)
    with Inl show ?thesis by (simp add: same_outcome_def)
  next
    case (Inr t)
    obtain c w where t: "t = (c, w)" by (cases t)
    from step Inr t obtain c' w' where
      r': "body i (cb', v') = Inr (c', w')" and h: "hdg c = h" "hdg c' = h"
      and s: "same_below nd w w'"
      by (auto simp: same_outcome_Inr)
    have "same_outcome nd h (for_each body xs (c, w)) (for_each body xs (c', w'))"
      using Cons.prems(1) h s by (intro Cons.IH) auto
    with Inr t r' show ?thesis by simp
  qed
qed

lemma call_compute_same_outcome:
  assumes "\<forall>f. cs i = Some f \<longrightarrow> scratch_independent env (sts i) cm nd h f"
    and "hdg cb = h" and "hdg cb' = h" and "same_below nd v v'"
  shows "same_outcome nd h (call_compute env sts cm cs i (cb, v))
           (call_compute env sts cm cs i (cb', v'))"
proof (cases "cs i")
  case None
  then show ?thesis by (simp add: call_compute_def same_outcome_def)
next
  case (Some f)
  with assms(1) have "scratch_independent env (sts i) cm nd h f" by simp
  with assms(2-4) Some show ?thesis
    by (simp add: call_compute_def scratch_independent_def)
qed

lemma compute_masked_same_outcome:
  assumes "\<forall>f. cs i = Some f \<longrightarrow> scratch_independent env (sts i) cm nd h f"
    and "hdg cb = h" and "hdg cb' = h" and "same_below nd v v'"
  shows "same_outcome nd h (compute_masked env sts cm m cs i (cb, v))
           (compute_masked env sts cm m cs i (cb', v'))"
proof (cases "st_mask_of i :: error + 'a word")
  case (Inl e)
  then show ?thesis by (simp add: compute_masked_def same_outcome_def)
next
  case (Inr k)
  show ?thesis
  proof (cases "c_id cm < length m \<and> m ! c_id cm AND k \<noteq> 0")
    case True
    with Inr have "compute_masked env sts cm m cs i s = call_compute env sts cm cs i s" for s
      by (simp add: compute_masked_def)
    then show ?thesis
      using call_compute_same_outcome [where cs = cs and i = i and sts = sts, OF assms]
      by simp
  next
    case False
    with Inr have "compute_masked env sts cm m cs i s =
        (if \<not> c_id cm < length m then Inl Out_of_bounds else Inr s)" for s
      by (auto simp add: compute_masked_def)
    with assms(2-4) show ?thesis by (simp add: same_outcome_def)
  qed
qed

lemma dcsd_by_value_scratch_independent:
  "scratch_independent env st cm nd h cs_source_term_dcsd_by_value"
  unfolding scratch_independent_def
proof (intro allI impI)
  fix cb cb' :: cs_cell_builder_t and v v' :: "nat \<Rightarrow> real"
  assume a: "hdg cb = h \<and> hdg cb' = h \<and> same_below nd v v'"
  show "same_outcome nd h (cs_source_term_dcsd_by_value env st cm cb v)
          (cs_source_term_dcsd_by_value env st cm cb' v')"
    using a
    by (auto simp: cs_source_term_dcsd_by_value_def same_outcome_def same_below_def
          fold_add_pointwise Let_def split: option.splits sum.splits)
qed

lemma fold_same_below:
  assumes "\<And>x v v'. same_below nd v v' \<Longrightarrow> same_below nd (g x v) (g x v')"
    and "same_below nd v v'"
  shows "same_below nd (fold g xs v) (fold g xs v')"
  using assms(2) by (induction xs arbitrary: v v') (simp_all add: assms(1))

lemma fbsd_by_value_scratch_independent:
  "scratch_independent env st cm nd h cs_source_term_fbsd_by_value"
  unfolding scratch_independent_def
proof (intro allI impI)
  fix cb cb' :: cs_cell_builder_t and v v' :: "nat \<Rightarrow> real"
  assume "hdg cb = h \<and> hdg cb' = h \<and> same_below nd v v'"
  then show "same_outcome nd h (cs_source_term_fbsd_by_value env st cm cb v)
          (cs_source_term_fbsd_by_value env st cm cb' v')"
    by (auto simp: cs_source_term_fbsd_by_value_def same_outcome_def same_below_def
          split: option.splits sum.splits)
qed

lemma fbsd_bary_by_analytic_scratch_independent:
  "scratch_independent env st cm nd h cs_source_term_fbsd_bary_by_analytic"
  unfolding scratch_independent_def
proof (intro allI impI)
  fix cb cb' :: cs_cell_builder_t and v v' :: "nat \<Rightarrow> real"
  assume "hdg cb = h \<and> hdg cb' = h \<and> same_below nd v v'"
  then show "same_outcome nd h (cs_source_term_fbsd_bary_by_analytic env st cm cb v)
          (cs_source_term_fbsd_bary_by_analytic env st cm cb' v')"
    by (auto simp: cs_source_term_fbsd_bary_by_analytic_def same_outcome_def same_below_def
          Let_def split: option.splits sum.splits)
qed

lemma dcsd_q1o1_by_analytic_scratch_independent:
  "scratch_independent env st cm nd h cs_source_term_dcsd_q1o1_by_analytic"
  unfolding scratch_independent_def
proof (intro allI impI)
  fix cb cb' :: cs_cell_builder_t and v v' :: "nat \<Rightarrow> real"
  assume a: "hdg cb = h \<and> hdg cb' = h \<and> same_below nd v v'"
  have edge: "same_below nd (dcsd_q1o1_edge env func cm f i w) (dcsd_q1o1_edge env func cm f i w')"
    if "same_below nd w w'" for func f i w w'
    using that by (simp add: dcsd_q1o1_edge_def Let_def same_below_def)
  have "same_below nd
          (fold (\<lambda>f vs. fold (dcsd_q1o1_edge env func cm f) [f2e_idx cm f..<f2e_idx cm (f + 1)] vs)
             [0..<n_fc cm] v)
          (fold (\<lambda>f vs. fold (dcsd_q1o1_edge env func cm f) [f2e_idx cm f..<f2e_idx cm (f + 1)] vs)
             [0..<n_fc cm] v')" for func
    using a by (intro fold_same_below edge) simp_all
  with a show "same_outcome nd h (cs_source_term_dcsd_q1o1_by_analytic env st cm cb v)
          (cs_source_term_dcsd_q1o1_by_analytic env st cm cb' v')"
    by (auto simp: cs_source_term_dcsd_q1o1_by_analytic_def same_outcome_def
          split: option.splits sum.splits)
qed

lemma dispatch_one_full_value:
  assumes "n_dofs y = 4"
  shows "cs_source_term_compute_cellwise example_env 1 one_full_value unit_tet 4
           (None :: 16 word list option) dual_bindings empty_cb y
         = Inr (empty_cb, y\<lparr>source := (\<lambda>i. if i < 4 then 1/2 else source y i)\<rparr>)"
proof -
  have e: "cs_source_term_dcsd_by_value example_env (Some (by_value 5 0 2)) unit_tet empty_cb
             (\<lambda>i. if i < 4 then 0 else v i) = Inr (empty_cb, \<lambda>i. if i < 4 then 1/2 else v i)" for v
    by (simp add: cs_source_term_dcsd_by_value_def assert_ok_def input_as_real_def by_value_def
          fold_add_pointwise example_env_def unit_tet_def test_flag_def fun_eq_iff)
  have s: "4 AND CS_FLAG_SYS_SOURCETERM example_env \<noteq> 0" by (simp add: example_env_def)
  from assms s show ?thesis
    by (simp add: cs_source_term_compute_cellwise_def Let_def call_compute_def dual_bindings_def
          one_full_value_def fold_set_pointwise [where c = "\<lambda>i. 0"] e)
qed

lemma half_csys_eqs:
  "zero_csys 4\<lparr>source := (\<lambda>i. if i < 4 then 1/2 else source (zero_csys 4) i)\<rparr> = half_csys"
  "half_csys\<lparr>source := (\<lambda>i. if i < 4 then 1/2 else source half_csys i)\<rparr> = half_csys"
  by (simp_all add: zero_csys_def half_csys_def half_values_def zero_values_def fun_eq_iff)

text \<open>
  C6, as amended. The dispatcher resets the \<open>n_dofs\<close> entries of the buffer before it calls the
  evaluators, so a second run on the buffer and the cell builder that the first run left
  gives the result of the first run again, not its double: no state is carried from one call
  to the next, for evaluators that do not depend on the scratch buffers.
\<close>

theorem dispatcher_twice:
  assumes "\<forall>i<n. \<forall>f. cs i = Some f \<longrightarrow> scratch_independent env (sts i) cm (n_dofs csys) (hdg cb) f"
    and "cs_source_term_compute_cellwise env n sts cm sys_flag smask cs cb csys = Inr (cb1, csys1)"
  shows "\<exists>cb2 csys2. cs_source_term_compute_cellwise env n sts cm sys_flag smask cs cb1 csys1
                        = Inr (cb2, csys2)
           \<and> n_dofs csys2 = n_dofs csys1
           \<and> (\<forall>i<n_dofs csys1. source csys2 i = source csys1 i)"
proof -
  define nd where "nd = n_dofs csys"
  define z where "z = (\<lambda>i. if i < nd then 0 else source csys i)"
  define z1 where "z1 = (\<lambda>i. if i < nd then 0 else source csys1 i)"
  define body where "body = (case smask of
      None \<Rightarrow> call_compute env sts cm cs
    | Some msk \<Rightarrow> compute_masked env sts cm msk cs)"
  have zz: "fold (\<lambda>i s. s(i := 0)) [0..<n_dofs csys] (source csys) = z"
    by (simp add: fold_set_pointwise [where c = "\<lambda>i. 0"] z_def nd_def)
  have D: "cs_source_term_compute_cellwise env n sts cm sys_flag smask cs c y =
      (if sys_flag AND CS_FLAG_SYS_SOURCETERM env = 0
       then Inr (c, y\<lparr>source := (\<lambda>i. if i < n_dofs y then 0 else source y i)\<rparr>)
       else (case for_each body [0..<n] (c, \<lambda>i. if i < n_dofs y then 0 else source y i) of
               Inl e \<Rightarrow> Inl e
             | Inr (c1, s1) \<Rightarrow> Inr (c1, y\<lparr>source := s1\<rparr>)))" for c y
    by (simp add: cs_source_term_compute_cellwise_def Let_def body_def
          fold_set_pointwise [where c = "\<lambda>i. 0"] split: option.splits)
  show ?thesis
  proof (cases "sys_flag AND CS_FLAG_SYS_SOURCETERM env = 0")
    case True
    with assms(2) have "cb1 = cb" "csys1 = csys\<lparr>source := z\<rparr>"
      by (simp_all add: D z_def nd_def)
    with True show ?thesis by (simp add: D z_def nd_def)
  next
    case False
    with assms(2) obtain s1 where
      run: "for_each body [0..<n] (cb, z) = Inr (cb1, s1)" and c1: "csys1 = csys\<lparr>source := s1\<rparr>"
      by (auto simp: D z_def nd_def split: sum.splits)
    have rel: "same_outcome nd (hdg cb) (body i (c, v)) (body i (c', v'))"
      if "i \<in> set [0..<n]" "hdg c = hdg cb" "hdg c' = hdg cb" "same_below nd v v'" for i c c' v v'
    proof -
      from that(1) assms(1)
      have si: "\<forall>f. cs i = Some f \<longrightarrow> scratch_independent env (sts i) cm nd (hdg cb) f"
        by (simp add: nd_def)
      show ?thesis
        unfolding body_def
        by (cases smask)
          (simp_all add: call_compute_same_outcome [where cs = cs and i = i and sts = sts, OF si that(2-4)]
             compute_masked_same_outcome [where cs = cs and i = i and sts = sts, OF si that(2-4)])
    qed
    have "same_outcome nd (hdg cb) (for_each body [0..<n] (cb, z)) (for_each body [0..<n] (cb, z))"
      by (rule loop_same_outcome [where body = body]) (simp_all add: rel same_below_def)
    with run have h1: "hdg cb1 = hdg cb" by (simp add: same_outcome_Inr)
    have "same_below nd z z1" by (simp add: same_below_def z_def z1_def)
    with h1 have "same_outcome nd (hdg cb) (for_each body [0..<n] (cb, z))
                    (for_each body [0..<n] (cb1, z1))"
      by (intro loop_same_outcome [where body = body]) (simp_all add: rel)
    with run obtain cb2 s2 where
      run2: "for_each body [0..<n] (cb1, z1) = Inr (cb2, s2)" and s: "same_below nd s1 s2"
      by (auto simp: same_outcome_Inr)
    from c1 have nd1: "n_dofs csys1 = nd" by (simp add: nd_def)
    from False run2 nd1 have "cs_source_term_compute_cellwise env n sts cm sys_flag smask cs cb1 csys1
        = Inr (cb2, csys1\<lparr>source := s2\<rparr>)"
      by (simp add: D z1_def)
    with s c1 nd1 show ?thesis by (auto simp: same_below_def)
  qed
qed

theorem dispatcher_twice_witness:
  "cs_source_term_compute_cellwise example_env 1 one_full_value unit_tet 4
     (None :: 16 word list option) dual_bindings empty_cb (zero_csys 4) = Inr (empty_cb, half_csys)
   \<and> (case cs_source_term_compute_cellwise example_env 1 one_full_value unit_tet 4
          (None :: 16 word list option) dual_bindings empty_cb half_csys of
        Inl e \<Rightarrow> False
      | Inr (cb2, csys2) \<Rightarrow>
          n_dofs csys2 = 4 \<and> source csys2 0 = 1/2 \<and> source csys2 1 = 1/2
          \<and> source csys2 2 = 1/2 \<and> source csys2 3 = 1/2)"
proof -
  have si: "\<forall>i<1. \<forall>f. dual_bindings i = Some f \<longrightarrow>
      scratch_independent example_env (one_full_value i) unit_tet (n_dofs (zero_csys 4))
        (hdg empty_cb) f"
    by (simp add: dual_bindings_def dcsd_by_value_scratch_independent)
  have r: "cs_source_term_compute_cellwise example_env 1 one_full_value unit_tet 4
     (None :: 16 word list option) dual_bindings empty_cb (zero_csys 4) = Inr (empty_cb, half_csys)"
    using dispatch_one_full_value [of "zero_csys 4"]
    by (simp add: half_csys_eqs) (simp add: zero_csys_def)
  from dispatcher_twice [OF si r] obtain cb2 csys2 where
    "cs_source_term_compute_cellwise example_env 1 one_full_value unit_tet 4
       (None :: 16 word list option) dual_bindings empty_cb half_csys = Inr (cb2, csys2)"
    "n_dofs csys2 = n_dofs half_csys"
    "\<forall>i<n_dofs half_csys. source csys2 i = source half_csys i"
    by blast
  with r show ?thesis by (simp add: half_csys_def half_values_def)
qed

text \<open>
  C6, as stated, fails: with the single source term of value 2 on the tetrahedron of volume 1,
  the first run gives 1/2 at each vertex and the second run gives 1/2 again, not 1.
\<close>

theorem dispatcher_twice_not_double:
  "cs_source_term_compute_cellwise example_env 1 one_full_value unit_tet 4
     (None :: 16 word list option) dual_bindings empty_cb (zero_csys 4) = Inr (empty_cb, half_csys)
   \<and> cs_source_term_compute_cellwise example_env 1 one_full_value unit_tet 4
     (None :: 16 word list option) dual_bindings empty_cb half_csys = Inr (empty_cb, half_csys)
   \<and> source half_csys 0 = 1/2
   \<and> source half_csys 0 \<noteq> 2 * source half_csys 0"
  using dispatch_one_full_value [of "zero_csys 4"] dispatch_one_full_value [of half_csys]
  by (simp add: half_csys_eqs) (simp add: zero_csys_def half_csys_def half_values_def)

subsection \<open>Combinations without an evaluator\<close>















subsection \<open>Evaluators whose outcome does not depend on the scratch buffers\<close>

text \<open>
  Every evaluator writes the entries of \<^verbatim>\<open>cb->values\<close>, \<^verbatim>\<open>cb->vectors\<close> and
  \<^verbatim>\<open>cb->ids\<close> before it reads them, so that what it adds to the array of values depends on
  the cell, the definition and the Hodge matrix only. The evaluators of a potential read the
  Hodge matrix, whose size is that of the array they multiply; the ten-point evaluator needs a
  well-formed connectivity.
\<close>

lemma same_below_add_to_values:
  assumes "same_below nd v v'" and "\<forall>i<n. buf (off + i) = buf' (off + i)"
  shows "same_below nd (add_to_values n off buf v) (add_to_values n off buf' v')"
  using assms
  by (simp add: add_to_values_def same_below_def
        fold_add_pointwise [where c = "\<lambda>i. buf (off + i)"]
        fold_add_pointwise [where c = "\<lambda>i. buf' (off + i)"])

lemma fold_sum_cong:
  "(\<And>j. j \<in> set xs \<Longrightarrow> f j = g j) \<Longrightarrow>
     fold (\<lambda>j acc. acc + f j) xs (a::real) = fold (\<lambda>j acc. acc + g j) xs a"
  by (induction xs arbitrary: a) simp_all

lemma cs_locmat_matvec_cong:
  assumes "\<forall>j<n_ent loc. buf (a + j) = buf' (a + j)"
  shows "\<forall>i<n_ent loc. cs_locmat_matvec loc a b buf (b + i) = cs_locmat_matvec loc a b buf' (b + i)"
proof (intro allI impI)
  fix i assume "i < n_ent loc"
  have "fold (\<lambda>j acc. acc + val loc (i * n_ent loc + j) * buf (a + j)) [0..<n_ent loc] 0
      = fold (\<lambda>j acc. acc + val loc (i * n_ent loc + j) * buf' (a + j)) [0..<n_ent loc] 0"
    using assms by (intro fold_sum_cong) simp
  with \<open>i < n_ent loc\<close>
  show "cs_locmat_matvec loc a b buf (b + i) = cs_locmat_matvec loc a b buf' (b + i)"
    by (simp add: cs_locmat_matvec_def Let_def)
qed

lemma pvsp_by_value_scratch_independent:
  assumes "\<forall>loc. h = Some loc \<longrightarrow> n_ent loc = n_vc cm"
  shows "scratch_independent env st cm nd h cs_source_term_pvsp_by_value"
  unfolding scratch_independent_def
proof (intro allI impI)
  fix cb cb' :: cs_cell_builder_t and v v' :: "nat \<Rightarrow> real"
  assume a: "hdg cb = h \<and> hdg cb' = h \<and> same_below nd v v'"
  have "same_below nd
          (add_to_values (n_vc cm) (n_vc cm)
             (cs_locmat_matvec loc 0 (n_vc cm) (fold (\<lambda>v b. b(v := p)) [0..<n_vc cm] (cb_values cb))) v)
          (add_to_values (n_vc cm) (n_vc cm)
             (cs_locmat_matvec loc 0 (n_vc cm) (fold (\<lambda>v b. b(v := p)) [0..<n_vc cm] (cb_values cb'))) v')"
    if "h = Some loc" for loc p
  proof -
    from that assms have n: "n_ent loc = n_vc cm" by simp
    have "\<forall>i<n_ent loc.
        cs_locmat_matvec loc 0 (n_vc cm) (fold (\<lambda>v b. b(v := p)) [0..<n_vc cm] (cb_values cb)) (n_vc cm + i)
        = cs_locmat_matvec loc 0 (n_vc cm) (fold (\<lambda>v b. b(v := p)) [0..<n_vc cm] (cb_values cb')) (n_vc cm + i)"
      by (rule cs_locmat_matvec_cong) (simp add: n fold_set_pointwise [where c = "\<lambda>i. p"])
    with a n show ?thesis by (intro same_below_add_to_values) simp_all
  qed
  with a show "same_outcome nd h (cs_source_term_pvsp_by_value env st cm cb v)
          (cs_source_term_pvsp_by_value env st cm cb' v')"
    by (auto simp: cs_source_term_pvsp_by_value_def same_outcome_def Let_def
          split: option.splits sum.splits)
qed

lemma pvsp_by_analytic_scratch_independent:
  assumes "\<forall>loc. h = Some loc \<longrightarrow> n_ent loc = n_vc cm"
  shows "scratch_independent env st cm nd h cs_source_term_pvsp_by_analytic"
  unfolding scratch_independent_def
proof (intro allI impI)
  fix cb cb' :: cs_cell_builder_t and v v' :: "nat \<Rightarrow> real"
  assume a: "hdg cb = h \<and> hdg cb' = h \<and> same_below nd v v'"
  have "same_below nd
          (add_to_values (n_vc cm) (n_vc cm)
             (cs_locmat_matvec loc 0 (n_vc cm) (write_retval 0 (n_vc cm) r (cb_values cb))) v)
          (add_to_values (n_vc cm) (n_vc cm)
             (cs_locmat_matvec loc 0 (n_vc cm) (write_retval 0 (n_vc cm) r (cb_values cb'))) v')"
    if "h = Some loc" for loc r
  proof -
    from that assms have n: "n_ent loc = n_vc cm" by simp
    have "\<forall>i<n_ent loc.
        cs_locmat_matvec loc 0 (n_vc cm) (write_retval 0 (n_vc cm) r (cb_values cb)) (n_vc cm + i)
        = cs_locmat_matvec loc 0 (n_vc cm) (write_retval 0 (n_vc cm) r (cb_values cb')) (n_vc cm + i)"
      by (rule cs_locmat_matvec_cong) (simp add: n write_retval_def)
    with a n show ?thesis by (intro same_below_add_to_values) simp_all
  qed
  with a show "same_outcome nd h (cs_source_term_pvsp_by_analytic env st cm cb v)
          (cs_source_term_pvsp_by_analytic env st cm cb' v')"
    by (auto simp: cs_source_term_pvsp_by_analytic_def same_outcome_def Let_def
          split: option.splits sum.splits)
qed

lemma vcsp_by_value_scratch_independent:
  assumes "\<forall>loc. h = Some loc \<longrightarrow> n_ent loc = n_vc cm + 1"
  shows "scratch_independent env st cm nd h cs_source_term_vcsp_by_value"
  unfolding scratch_independent_def
proof (intro allI impI)
  fix cb cb' :: cs_cell_builder_t and v v' :: "nat \<Rightarrow> real"
  assume a: "hdg cb = h \<and> hdg cb' = h \<and> same_below nd v v'"
  have "same_below nd
          (add_to_values (n_vc cm + 1) (n_vc cm + 1)
             (cs_locmat_matvec loc 0 (n_vc cm + 1)
                ((fold (\<lambda>v b. b(v := p)) [0..<n_vc cm] (cb_values cb))(n_vc cm := p))) v)
          (add_to_values (n_vc cm + 1) (n_vc cm + 1)
             (cs_locmat_matvec loc 0 (n_vc cm + 1)
                ((fold (\<lambda>v b. b(v := p)) [0..<n_vc cm] (cb_values cb'))(n_vc cm := p))) v')"
    if "h = Some loc" for loc p
  proof -
    from that assms have n: "n_ent loc = n_vc cm + 1" by simp
    have "\<forall>i<n_ent loc.
        cs_locmat_matvec loc 0 (n_vc cm + 1)
          ((fold (\<lambda>v b. b(v := p)) [0..<n_vc cm] (cb_values cb))(n_vc cm := p)) (n_vc cm + 1 + i)
        = cs_locmat_matvec loc 0 (n_vc cm + 1)
          ((fold (\<lambda>v b. b(v := p)) [0..<n_vc cm] (cb_values cb'))(n_vc cm := p)) (n_vc cm + 1 + i)"
      by (rule cs_locmat_matvec_cong) (simp add: n fold_set_pointwise [where c = "\<lambda>i. p"])
    with a n show ?thesis by (intro same_below_add_to_values) simp_all
  qed
  with a show "same_outcome nd h (cs_source_term_vcsp_by_value env st cm cb v)
          (cs_source_term_vcsp_by_value env st cm cb' v')"
    by (auto simp: cs_source_term_vcsp_by_value_def same_outcome_def Let_def
          split: option.splits sum.splits)
qed

lemma vcsp_by_analytic_scratch_independent:
  assumes "\<forall>loc. h = Some loc \<longrightarrow> n_ent loc = n_vc cm + 1"
  shows "scratch_independent env st cm nd h cs_source_term_vcsp_by_analytic"
  unfolding scratch_independent_def
proof (intro allI impI)
  fix cb cb' :: cs_cell_builder_t and v v' :: "nat \<Rightarrow> real"
  assume a: "hdg cb = h \<and> hdg cb' = h \<and> same_below nd v v'"
  have "same_below nd
          (add_to_values (n_vc cm + 1) (n_vc cm + 1)
             (cs_locmat_matvec loc 0 (n_vc cm + 1)
                (write_retval (n_vc cm) 1 r' (write_retval 0 (n_vc cm) r (cb_values cb)))) v)
          (add_to_values (n_vc cm + 1) (n_vc cm + 1)
             (cs_locmat_matvec loc 0 (n_vc cm + 1)
                (write_retval (n_vc cm) 1 r' (write_retval 0 (n_vc cm) r (cb_values cb')))) v')"
    if "h = Some loc" for loc r r'
  proof -
    from that assms have n: "n_ent loc = n_vc cm + 1" by simp
    have "\<forall>i<n_ent loc.
        cs_locmat_matvec loc 0 (n_vc cm + 1)
          (write_retval (n_vc cm) 1 r' (write_retval 0 (n_vc cm) r (cb_values cb))) (n_vc cm + 1 + i)
        = cs_locmat_matvec loc 0 (n_vc cm + 1)
          (write_retval (n_vc cm) 1 r' (write_retval 0 (n_vc cm) r (cb_values cb'))) (n_vc cm + 1 + i)"
      by (rule cs_locmat_matvec_cong) (auto simp add: n write_retval_def)
    with a n show ?thesis by (intro same_below_add_to_values) simp_all
  qed
  with a show "same_outcome nd h (cs_source_term_vcsp_by_analytic env st cm cb v)
          (cs_source_term_vcsp_by_analytic env st cm cb' v')"
    by (auto simp: cs_source_term_vcsp_by_analytic_def same_outcome_def Let_def
          split: option.splits sum.splits)
qed

lemma dcsd_q5o3_by_analytic_scratch_independent:
  "scratch_independent env st cm nd h cs_source_term_dcsd_q5o3_by_analytic"
  unfolding scratch_independent_def
proof (intro allI impI)
  fix cb cb' :: cs_cell_builder_t and v v' :: "nat \<Rightarrow> real"
  assume a: "hdg cb = h \<and> hdg cb' = h \<and> same_below nd v v'"
  have edge: "same_below k (q5o3_edge env func cm f i w) (q5o3_edge env func cm f i w')"
    if "same_below k w w'" for func f i w w' k
    using that by (simp add: q5o3_edge_def Let_def same_below_def split: prod.splits)
  have z: "same_below (n_vc cm) (fold (\<lambda>v b. b(v := 0)) [0..<n_vc cm] (cb_values cb))
             (fold (\<lambda>v b. b(v := 0)) [0..<n_vc cm] (cb_values cb'))"
    by (simp add: fold_set_pointwise [where c = "\<lambda>i. 0"] same_below_def)
  have c: "same_below (n_vc cm)
          (fold (\<lambda>f b. fold (q5o3_edge env func cm f) [f2e_idx cm f..<f2e_idx cm (f + 1)] b)
             [0..<n_fc cm] (fold (\<lambda>v b. b(v := 0)) [0..<n_vc cm] (cb_values cb)))
          (fold (\<lambda>f b. fold (q5o3_edge env func cm f) [f2e_idx cm f..<f2e_idx cm (f + 1)] b)
             [0..<n_fc cm] (fold (\<lambda>v b. b(v := 0)) [0..<n_vc cm] (cb_values cb')))" for func
  proof (rule fold_same_below)
    fix f :: nat and w w' :: "nat \<Rightarrow> real"
    assume "same_below (n_vc cm) w w'"
    then show "same_below (n_vc cm)
        (fold (q5o3_edge env func cm f) [f2e_idx cm f..<f2e_idx cm (f + 1)] w)
        (fold (q5o3_edge env func cm f) [f2e_idx cm f..<f2e_idx cm (f + 1)] w')"
      by (rule fold_same_below [rotated]) (rule edge)
  qed (rule z)
  have "same_below nd (add_to_values (n_vc cm) 0 w v) (add_to_values (n_vc cm) 0 w' v')"
    if "same_below (n_vc cm) w w'" for w w'
    using that a by (intro same_below_add_to_values) (simp_all add: same_below_def)
  with c a show "same_outcome nd h (cs_source_term_dcsd_q5o3_by_analytic env st cm cb v)
          (cs_source_term_dcsd_q5o3_by_analytic env st cm cb' v')"
    by (auto simp: cs_source_term_dcsd_q5o3_by_analytic_def same_outcome_def Let_def
          split: option.splits sum.splits)
qed


lemma for_each_related:
  assumes "\<And>i s s'. i \<in> set xs \<Longrightarrow> R s s' \<Longrightarrow> rel_sum (=) R (body i s) (body i s')"
    and "R s s'"
  shows "rel_sum (=) R (for_each body xs s) (for_each body xs s')"
  using assms
proof (induction xs arbitrary: s s')
  case Nil
  then show ?case by simp
next
  case (Cons i xs)
  have step: "rel_sum (=) R (body i s) (body i s')"
    using Cons.prems by simp
  show ?case
  proof (cases "body i s")
    case (Inl e)
    with step have "body i s' = Inl e" by (cases "body i s'") simp_all
    with Inl show ?thesis by simp
  next
    case (Inr t)
    with step obtain t' where t': "body i s' = Inr t'" "R t t'"
      by (cases "body i s'") simp_all
    have "rel_sum (=) R (for_each body xs t) (for_each body xs t')"
      using Cons.prems(1) t'(2) by (intro Cons.IH) auto
    with Inr t'(1) show ?thesis by simp
  qed
qed

lemma bary_zero_loop:
  "j < 3 * n \<Longrightarrow> fold (\<lambda>v b. b(3 * v := 0, 3 * v + 1 := 0, 3 * v + 2 := 0)) [0..<n] b j = (0::real)"
  by (induction n) auto

lemma fold_pointwise_same_below:
  assumes "same_below K b b'"
  shows "same_below K (fold (\<lambda>k w. w(idx k := F k (w (idx k)))) xs b)
           (fold (\<lambda>k w. w(idx k := F k (w (idx k)))) xs b')"
  using assms by (rule fold_same_below [rotated]) (simp add: same_below_def)

lemma dcsd_bary_edge_same_below:
  assumes "same_below K b b'"
  shows "same_below K (dcsd_bary_edge env cm f i b) (dcsd_bary_edge env cm f i b')"
  unfolding dcsd_bary_edge_def Let_def
  by (intro fold_pointwise_same_below
        [where F = "\<lambda>k x. x + tef cm i * (cs_math_onesix env * hfc cm f) * xg_of cm f v1 v2 k"
           and idx = "\<lambda>k. 3 * v + k" for v v1 v2] assms)

lemma dcsd_bary_scale_related:
  assumes "same_below K b b'"
  shows "rel_sum (=) (\<lambda>s s'. same_below K (snd s) (snd s'))
       (dcsd_bary_scale cm v (a, b)) (dcsd_bary_scale cm v (a', b'))"
  using fold_pointwise_same_below [OF assms, where F = "\<lambda>k x. x * (1 / (vol_c cm * wvc cm v))"
      and idx = "\<lambda>k. 3 * v + k" and xs = "[0..<3]"]
  by (simp add: dcsd_bary_scale_def Let_def)

lemma call_func_same_below:
  "same_below (3 * n) xyz xyz' \<Longrightarrow> call_func func t n xyz = call_func func t n xyz'"
proof -
  assume "same_below (3 * n) xyz xyz'"
  then have "map xyz [0..<3 * n] = map xyz' [0..<3 * n]"
    by (simp add: same_below_def)
  then show ?thesis by (simp only: call_func_def)
qed

lemma dcsd_bary_by_analytic_scratch_independent:
  "scratch_independent env st cm nd h cs_source_term_dcsd_bary_by_analytic"
  unfolding scratch_independent_def
proof (intro allI impI)
  fix cb cb' :: cs_cell_builder_t and v v' :: "nat \<Rightarrow> real"
  assume a: "hdg cb = h \<and> hdg cb' = h \<and> same_below nd v v'"
  define xgv1 where "xgv1 c = fold (\<lambda>f b. fold (dcsd_bary_edge env cm f)
                                               [f2e_idx cm f..<f2e_idx cm (f + 1)] b)
                                 [0..<n_fc cm]
         (fold (\<lambda>v b. b(3 * v := 0, 3 * v + 1 := 0, 3 * v + 2 := 0)) [0..<n_vc cm] (vectors c))"
    for c :: cs_cell_builder_t
  define L where "L c = for_each (dcsd_bary_scale cm) [0..<n_vc cm] (cb_values c, xgv1 c)"
    for c :: cs_cell_builder_t
  have 0: "same_below (3 * n_vc cm)
        (fold (\<lambda>v b. b(3 * v := 0, 3 * v + 1 := 0, 3 * v + 2 := 0)) [0..<n_vc cm] (vectors cb))
        (fold (\<lambda>v b. b(3 * v := 0, 3 * v + 1 := 0, 3 * v + 2 := 0)) [0..<n_vc cm] (vectors cb'))"
    unfolding same_below_def by (intro allI impI) (simp only: bary_zero_loop)
  have 1: "same_below (3 * n_vc cm) (xgv1 cb) (xgv1 cb')"
    unfolding xgv1_def
  proof (rule fold_same_below)
    fix f :: nat and w w' :: "nat \<Rightarrow> real"
    assume "same_below (3 * n_vc cm) w w'"
    then show "same_below (3 * n_vc cm)
        (fold (dcsd_bary_edge env cm f) [f2e_idx cm f..<f2e_idx cm (f + 1)] w)
        (fold (dcsd_bary_edge env cm f) [f2e_idx cm f..<f2e_idx cm (f + 1)] w')"
      by (rule fold_same_below [rotated]) (rule dcsd_bary_edge_same_below)
  qed (rule 0)
  have 2: "rel_sum (=) (\<lambda>s s'. same_below (3 * n_vc cm) (snd s) (snd s')) (L cb) (L cb')"
    unfolding L_def
  proof (rule for_each_related)
    fix i and s s' :: "(nat \<Rightarrow> real) \<times> (nat \<Rightarrow> real)"
    assume "same_below (3 * n_vc cm) (snd s) (snd s')"
    then show "rel_sum (=) (\<lambda>s s'. same_below (3 * n_vc cm) (snd s) (snd s'))
                 (dcsd_bary_scale cm i s) (dcsd_bary_scale cm i s')"
      using dcsd_bary_scale_related [of "3 * n_vc cm" "snd s" "snd s'" cm i "fst s" "fst s'"]
      by simp
  qed (simp add: 1)
  have unfold: "cs_source_term_dcsd_bary_by_analytic env (Some d) cm c w =
      (if \<not> assert_ok env (cs_test_flag env (flag cm)
                 (CS_CDO_LOCAL_PVQ env OR CS_CDO_LOCAL_PFQ env OR CS_CDO_LOCAL_HFQ env OR
                  CS_CDO_LOCAL_FE env OR CS_CDO_LOCAL_FEQ env OR CS_CDO_LOCAL_EV env))
       then Inl Assertion_failed
       else (case input_as_analytic d of
               Inl e \<Rightarrow> Inl e
             | Inr func \<Rightarrow>
                 (case L c of
                    Inl e \<Rightarrow> Inl e
                  | Inr (vol_vc, xgv) \<Rightarrow>
                      Inr (c\<lparr>cb_values := write_retval (n_vc cm) (n_vc cm)
                                 (call_func func (t_cur env) (n_vc cm) xgv) vol_vc,
                             vectors := xgv\<rparr>,
                           \<lambda>i. if i < n_vc cm
                               then vol_c cm * wvc cm i * call_func func (t_cur env) (n_vc cm) xgv i
                               else w i))))"
    for d c w
    by (simp add: cs_source_term_dcsd_bary_by_analytic_def L_def xgv1_def Let_def
          fold_set_pointwise write_retval_def fun_eq_iff
          split: sum.splits prod.splits)
  show "same_outcome nd h (cs_source_term_dcsd_bary_by_analytic env st cm cb v)
          (cs_source_term_dcsd_bary_by_analytic env st cm cb' v')"
  proof (cases st)
    case None
    with a show ?thesis
      by (simp add: cs_source_term_dcsd_bary_by_analytic_def same_outcome_def)
  next
    case (Some d)
    show ?thesis
    proof (cases "L cb")
      case (Inl e)
      with 2 have "L cb' = Inl e" by (cases "L cb'") simp_all
      with Inl Some show ?thesis
        by (simp add: unfold same_outcome_def split: sum.splits)
    next
      case (Inr s)
      with 2 obtain s' where s': "L cb' = Inr s'" "same_below (3 * n_vc cm) (snd s) (snd s')"
        by (cases "L cb'") simp_all
      obtain p q p' q' where pq: "s = (p, q)" "s' = (p', q')" by (cases s; cases s')
      with s'(2) have "call_func func (t_cur env) (n_vc cm) q = call_func func (t_cur env) (n_vc cm) q'"
        for func
        by (intro call_func_same_below) simp
      with Some Inr s'(1) pq a show ?thesis
        by (simp add: unfold same_outcome_def same_below_def split: sum.splits)
    qed
  qed
qed

lemma upt_0_3: "[0..<3] = [0, 1, 2::nat]"
  by (simp add: upt_rec)

lemma fold_related2:
  assumes "\<And>x s s'. x \<in> set xs \<Longrightarrow> R s s' \<Longrightarrow> R (g x s) (g' x s')" and "R s s'"
  shows "R (fold g xs s) (fold g' xs s')"
  using assms by (induction xs arbitrary: s s') simp_all

lemma fold_upt_grow:
  assumes "\<And>k s s'. k < n \<Longrightarrow> P k s s' \<Longrightarrow> P (Suc k) (g k s) (g' k s')" and "P 0 s s'"
  shows "P n (fold g [0..<n] s) (fold g' [0..<n] s')"
  using assms by (induction n) simp_all

lemma q10o2_xvc_same:
  "same_below (3 * n_vc cm) (q10o2_xvc cm b) (q10o2_xvc cm b')"
  unfolding q10o2_xvc_def
  by (rule fold_upt_grow [where P = "\<lambda>k s s'. same_below (3 * k) s s'"])
    (auto simp: same_below_def upt_0_3)

lemma q10o2_xe_xec_same:
  "same_below (6 * n_ec cm) (q10o2_xe_xec cm b) (q10o2_xe_xec cm b')"
proof -
  have "(\<lambda>s s'. \<forall>j. j < 3 * n_ec cm \<or> (3 * n_ec cm \<le> j \<and> j < 3 * (n_ec cm + n_ec cm)) \<longrightarrow> s j = s' j)
          (q10o2_xe_xec cm b) (q10o2_xe_xec cm b')"
    unfolding q10o2_xe_xec_def
    by (rule fold_upt_grow [where P = "\<lambda>k s s'.
          \<forall>j. j < 3 * k \<or> (3 * n_ec cm \<le> j \<and> j < 3 * (n_ec cm + k)) \<longrightarrow> s j = s' j"])
      (auto simp: upt_0_3 Let_def)
  then show ?thesis by (auto simp: same_below_def)
qed

lemma q10o2_xve_same:
  "same_below (6 * n_ec cm) (q10o2_xve cm b) (q10o2_xve cm b')"
  unfolding q10o2_xve_def
  by (rule fold_upt_grow [where P = "\<lambda>k s s'. same_below (6 * k) s s'"])
    (auto simp: same_below_def upt_0_3 Let_def)


lemma upd_same_below:
  "same_below K b b' \<Longrightarrow> x = x' \<Longrightarrow> same_below K (b(j := x)) (b'(j := x'))"
  by (simp add: same_below_def)

lemma same_belowD: "same_below K b b' \<Longrightarrow> j < K \<Longrightarrow> b j = b' j"
  by (simp add: same_below_def)

lemma write_retval_same:
  "same_below K w w' \<Longrightarrow> off = K \<Longrightarrow>
     same_below (K + n) (write_retval off n r w) (write_retval off n r w')"
  by (auto simp: write_retval_def same_below_def)

lemma q10o2_edge_same:
  assumes "same_below (2 * n_vc cm + 4 * n_ec cm) b b'"
    and "f2e_ids cm i < n_ec cm"
    and "e2v_ids cm (2 * f2e_ids cm i) < n_vc cm"
    and "e2v_ids cm (2 * f2e_ids cm i + 1) < n_vc cm"
  shows "same_below (2 * n_vc cm + 4 * n_ec cm)
           (q10o2_edge env func cm f i b) (q10o2_edge env func cm f i b')"
proof -
  define K where "K = 2 * n_vc cm + 4 * n_ec cm"
  define e where "e = f2e_ids cm i"
  define v1 where "v1 = e2v_ids cm (2 * e)"
  define v2 where "v2 = e2v_ids cm (2 * e + 1)"
  define hv where "hv = cs_math_onesix env * tef cm i * hfc cm f"
  define ef where "ef = func (t_cur env) 1
      (map (\<lambda>k. 0.5 * (center (edge cm e) k + center (face cm f) k)) [0..<3]) 0"
  define B1 where "B1 w = w(n_vc cm + 4 * n_ec cm + v1 := w (n_vc cm + 4 * n_ec cm + v1) + hv)"
    for w :: "nat \<Rightarrow> real"
  define B2 where "B2 w = (B1 w)(n_vc cm + 4 * n_ec cm + v2 := B1 w (n_vc cm + 4 * n_ec cm + v2) + hv)"
    for w :: "nat \<Rightarrow> real"
  define C where "C w = 0.2 * (ef + B2 w (n_vc cm + n_ec cm + e)) - 0.05 * B2 w (n_vc cm + e)"
    for w :: "nat \<Rightarrow> real"
  define B3 where "B3 w = (B2 w)(v1 := B2 w v1 + hv * (C w + 0.2 * B2 w (n_vc cm + 2 * n_ec cm + 2 * e)))"
    for w :: "nat \<Rightarrow> real"
  define B4 where "B4 w = (B3 w)(v2 := B3 w v2
      + hv * (C w + 0.2 * B3 w (n_vc cm + 2 * n_ec cm + (2 * e + 1))))"
    for w :: "nat \<Rightarrow> real"
  have edge: "q10o2_edge env func cm f i w = B4 w" for w
    unfolding q10o2_edge_def Let_def B4_def B3_def C_def B2_def B1_def ef_def hv_def v2_def v1_def
      e_def
    by (rule refl)
  from assms(2-4) have bnd: "e < n_ec cm" "v1 < n_vc cm" "v2 < n_vc cm"
    by (simp_all add: e_def v1_def v2_def)
  from assms(1) have s0: "same_below K b b'" by (simp add: K_def)
  from bnd have in_K:
    "n_vc cm + 4 * n_ec cm + v1 < K" "n_vc cm + 4 * n_ec cm + v2 < K"
    "n_vc cm + n_ec cm + e < K" "n_vc cm + e < K"
    "n_vc cm + 2 * n_ec cm + 2 * e < K" "n_vc cm + 2 * n_ec cm + (2 * e + 1) < K"
    "v1 < K" "v2 < K"
    by (simp_all add: K_def)
  have s1: "same_below K (B1 b) (B1 b')"
    unfolding B1_def using s0 in_K(1) by (intro upd_same_below) (simp_all add: same_belowD)
  have s2: "same_below K (B2 b) (B2 b')"
    unfolding B2_def using s1 in_K(2) by (intro upd_same_below) (simp_all add: same_belowD)
  have c: "C b = C b'"
    unfolding C_def using same_belowD [OF s2 in_K(3)] same_belowD [OF s2 in_K(4)] by simp
  have s3: "same_below K (B3 b) (B3 b')"
    unfolding B3_def using s2 c same_belowD [OF s2 in_K(7)] same_belowD [OF s2 in_K(5)]
    by (intro upd_same_below) simp_all
  have s4: "same_below K (B4 b) (B4 b')"
    unfolding B4_def using s3 c same_belowD [OF s3 in_K(8)] same_belowD [OF s3 in_K(6)]
    by (intro upd_same_below) simp_all
  then show ?thesis by (simp add: edge K_def)
qed


lemma q10o2_face_same:
  assumes wf: "wf_connectivity cm" and f: "f < n_fc cm"
    and s: "same_below (n_vc cm + 4 * n_ec cm) cbv cbv'"
  shows "same_below (n_vc cm + 4 * n_ec cm)
           (fst (q10o2_face env func cm f (cbv, vec, idv)))
           (fst (q10o2_face env func cm f (cbv', vec', idv')))"
proof -
  define N where "N = n_vc cm + 4 * n_ec cm"
  define K where "K = 2 * n_vc cm + 4 * n_ec cm"
  define Z where "Z w = fold (\<lambda>v b. b(n_vc cm + 4 * n_ec cm + v := 0)) [0..<n_vc cm] w"
    for w :: "nat \<Rightarrow> real"
  define E where "E w = fold (q10o2_edge env func cm f) [f2e_idx cm f..<f2e_idx cm (f + 1)] w"
    for w :: "nat \<Rightarrow> real"
  define X where "X x = fold (\<lambda>k x. let x1 = x(k := center (face cm f) k)
                                    in x1(3 + k := 0.5 * (center (face cm f) k + xc cm k)))
                          [0..<3] x"
    for x :: "nat \<Rightarrow> real"
  define V where "V w i x = fold (q10o2_face_vtx cm f w) [0..<n_vc cm] (0, i, x)"
    for w :: "nat \<Rightarrow> real" and i :: "nat \<Rightarrow> nat" and x :: "nat \<Rightarrow> real"
  define W where "W nvf x w = write_retval (n_vc cm + 4 * n_ec cm + n_vc cm) (2 + nvf)
                                (call_func func (t_cur env) (2 + nvf) x) w"
    for nvf :: nat and x w :: "nat \<Rightarrow> real"
  define Y where "Y nvf i w = fold (\<lambda>j b.
                   let v = i j;
                       val_vfc = - 0.05 * b (n_vc cm + 4 * n_ec cm + n_vc cm)
                                 + 0.2 * b (n_vc cm + 4 * n_ec cm + n_vc cm + 1)
                   in b(v := b v + b (n_vc cm + 4 * n_ec cm + v)
                            * (val_vfc + 0.2 * b (n_vc cm + 4 * n_ec cm + n_vc cm + (2 + j)))))
                  [0..<nvf] w"
    for nvf :: nat and i :: "nat \<Rightarrow> nat" and w :: "nat \<Rightarrow> real"
  have face: "fst (q10o2_face env func cm f (c, x, i)) =
      (case V (E (Z c)) i (X x) of (nvf, i1, x2) \<Rightarrow> Y nvf i1 (W nvf x2 (E (Z c))))" for c x i
    by (simp only: q10o2_face_def Let_def prod.case Z_def E_def X_def V_def W_def Y_def
          fst_conv split: prod.splits) (simp split: prod.splits)
  from s have s0: "same_below N cbv cbv'" by (simp add: N_def)
  have z: "same_below K (Z cbv) (Z cbv')"
  proof -
    have "same_below (N + n_vc cm) (Z cbv) (Z cbv')"
      unfolding Z_def N_def [symmetric]
      by (rule fold_upt_grow [where P = "\<lambda>k w w'. same_below (N + k) w w'"])
        (auto simp: same_below_def s0 [unfolded same_below_def])
    then show ?thesis by (simp add: N_def K_def)
  qed
  have e: "same_below K (E cbv1) (E cbv1')" if "same_below K cbv1 cbv1'" for cbv1 cbv1'
    unfolding E_def K_def
  proof (rule fold_related2 [where R = "same_below (2 * n_vc cm + 4 * n_ec cm)"])
    fix i and w w' :: "nat \<Rightarrow> real"
    assume i: "i \<in> set [f2e_idx cm f..<f2e_idx cm (f + 1)]"
      and w: "same_below (2 * n_vc cm + 4 * n_ec cm) w w'"
    from wf f i have e: "f2e_ids cm i < n_ec cm"
      by (simp add: wf_connectivity_def)
    with wf have "e2v_ids cm (2 * f2e_ids cm i) < n_vc cm"
      "e2v_ids cm (2 * f2e_ids cm i + 1) < n_vc cm"
      by (simp_all add: wf_connectivity_def)
    with w e show "same_below (2 * n_vc cm + 4 * n_ec cm)
        (q10o2_edge env func cm f i w) (q10o2_edge env func cm f i w')"
      by (intro q10o2_edge_same)
  qed (use that in \<open>simp add: K_def\<close>)
  have x: "same_below 6 (X x1) (X x1')" for x1 x1'
  proof -
    have "(\<lambda>s s'. \<forall>j. j < 3 \<or> (3 \<le> j \<and> j < 3 + 3) \<longrightarrow> s j = s' j) (X x1) (X x1')"
      unfolding X_def
      by (rule fold_upt_grow [where P = "\<lambda>k s s'. \<forall>j. j < k \<or> (3 \<le> j \<and> j < 3 + k) \<longrightarrow> s j = s' j"])
        (auto simp: Let_def)
    then show ?thesis by (auto simp: same_below_def)
  qed
  define T where "T t t' \<longleftrightarrow>
      fst t = fst t' \<and> (\<forall>j<fst t. fst (snd t) j = fst (snd t') j \<and> fst (snd t) j < n_vc cm)
      \<and> same_below (3 * (2 + fst t)) (snd (snd t)) (snd (snd t'))"
    for t t' :: "nat \<times> (nat \<Rightarrow> nat) \<times> (nat \<Rightarrow> real)"
  have v: "T (V w i1 x1) (V w' i1' x1')"
    if w: "same_below K w w'" and x1: "same_below 6 x1 x1'" for w w' i1 i1' x1 x1'
    unfolding V_def
  proof (rule fold_related2 [where R = T])
    show "T (0, i1, x1) (0, i1', x1')" using x1 by (simp add: T_def)
  next
    fix u and t t' :: "nat \<times> (nat \<Rightarrow> nat) \<times> (nat \<Rightarrow> real)"
    assume u: "u \<in> set [0..<n_vc cm]" and t: "T t t'"
    obtain a b c where tt: "t = (a, b, c)" by (cases t)
    obtain a' b' c' where tt': "t' = (a', b', c')" by (cases t')
    from u have "n_vc cm + 4 * n_ec cm + u < K" by (simp add: K_def)
    with w have weq: "w (n_vc cm + 4 * n_ec cm + u) = w' (n_vc cm + 4 * n_ec cm + u)"
      by (rule same_belowD)
    from t tt tt' have a: "a' = a" and b: "\<forall>j<a. b j = b' j \<and> b j < n_vc cm"
      and c: "same_below (3 * (2 + a)) c c'"
      by (auto simp add: T_def)
    have grow: "same_below (3 * (2 + (a + 1)))
        (fold (\<lambda>k x. x(3 * (2 + a) + k := 0.5 * (center (face cm f) k + xv cm (3 * u + k)))) [0..<3] c)
        (fold (\<lambda>k x. x(3 * (2 + a) + k := 0.5 * (center (face cm f) k + xv cm (3 * u + k)))) [0..<3] c')"
    proof -
      have "same_below (3 * (2 + a) + 3)
        (fold (\<lambda>k x. x(3 * (2 + a) + k := 0.5 * (center (face cm f) k + xv cm (3 * u + k)))) [0..<3] c)
        (fold (\<lambda>k x. x(3 * (2 + a) + k := 0.5 * (center (face cm f) k + xv cm (3 * u + k)))) [0..<3] c')"
        by (rule fold_upt_grow [where P = "\<lambda>k s s'. same_below (3 * (2 + a) + k) s s'"])
          (auto simp: same_below_def c [unfolded same_below_def])
      then show ?thesis by (simp add: algebra_simps)
    qed
    from u b grow c weq show "T (q10o2_face_vtx cm f w u t) (q10o2_face_vtx cm f w' u t')"
      by (auto simp add: q10o2_face_vtx_def tt tt' a T_def less_Suc_eq)
  qed
  have y: "same_below N (Y nvf i1 (W nvf x2 w)) (Y nvf i1' (W nvf x2' w'))"
    if w: "same_below K w w'" and i1: "\<forall>j<nvf. i1 j = i1' j \<and> i1 j < n_vc cm"
      and x2: "same_below (3 * (2 + nvf)) x2 x2'" for nvf i1 i1' x2 x2' w w'
  proof -
    define K2 where "K2 = K + (2 + nvf)"
    have r: "call_func func (t_cur env) (2 + nvf) x2 = call_func func (t_cur env) (2 + nvf) x2'"
      using x2 by (rule call_func_same_below)
    have w2: "same_below K2 (W nvf x2 w) (W nvf x2' w')"
      unfolding W_def K2_def r
      by (rule write_retval_same [OF w]) (simp add: K_def)
    have "same_below K2 (Y nvf i1 (W nvf x2 w)) (Y nvf i1' (W nvf x2' w'))"
      unfolding Y_def
    proof (rule fold_related2 [where R = "same_below K2"])
      fix j and p p' :: "nat \<Rightarrow> real"
      assume j: "j \<in> set [0..<nvf]" and p: "same_below K2 p p'"
      with i1 have ij: "i1' j = i1 j" "i1 j < n_vc cm" by auto
      from ij(2) j have in_K:
        "n_vc cm + 4 * n_ec cm + n_vc cm < K2" "n_vc cm + 4 * n_ec cm + n_vc cm + 1 < K2"
        "n_vc cm + 4 * n_ec cm + n_vc cm + (2 + j) < K2" "i1 j < K2"
        "n_vc cm + 4 * n_ec cm + i1 j < K2"
        by (simp_all add: K2_def K_def)
      show "same_below K2
          (let v = i1 j;
               val_vfc = - 0.05 * p (n_vc cm + 4 * n_ec cm + n_vc cm)
                         + 0.2 * p (n_vc cm + 4 * n_ec cm + n_vc cm + 1)
           in p(v := p v + p (n_vc cm + 4 * n_ec cm + v)
                    * (val_vfc + 0.2 * p (n_vc cm + 4 * n_ec cm + n_vc cm + (2 + j)))))
          (let v = i1' j;
               val_vfc = - 0.05 * p' (n_vc cm + 4 * n_ec cm + n_vc cm)
                         + 0.2 * p' (n_vc cm + 4 * n_ec cm + n_vc cm + 1)
           in p'(v := p' v + p' (n_vc cm + 4 * n_ec cm + v)
                    * (val_vfc + 0.2 * p' (n_vc cm + 4 * n_ec cm + n_vc cm + (2 + j)))))"
        unfolding Let_def ij(1)
        using p same_belowD [OF p in_K(1)] same_belowD [OF p in_K(2)] same_belowD [OF p in_K(3)]
          same_belowD [OF p in_K(4)] same_belowD [OF p in_K(5)]
        by (intro upd_same_below) simp_all
    qed (rule w2)
    then show ?thesis by (simp add: same_below_def K2_def K_def N_def)
  qed
  obtain nvf i1 x2 where V1: "V (E (Z cbv)) idv (X vec) = (nvf, i1, x2)"
    by (cases "V (E (Z cbv)) idv (X vec)")
  obtain nvf' i1' x2' where V2: "V (E (Z cbv')) idv' (X vec') = (nvf', i1', x2')"
    by (cases "V (E (Z cbv')) idv' (X vec')")
  from v [OF e [OF z] x, of idv vec idv' vec'] V1 V2
  have "nvf' = nvf" "\<forall>j<nvf. i1 j = i1' j \<and> i1 j < n_vc cm" "same_below (3 * (2 + nvf)) x2 x2'"
    by (auto simp add: T_def)
  with y [OF e [OF z]] V1 V2 show ?thesis
    by (simp add: face N_def)
qed


lemma same_below_mono: "same_below K b b' \<Longrightarrow> J \<le> K \<Longrightarrow> same_below J b b'"
  by (simp add: same_below_def)

lemma dcsd_q10o2_by_analytic_scratch_independent:
  assumes wf: "wf_connectivity cm"
  shows "scratch_independent env st cm nd h cs_source_term_dcsd_q10o2_by_analytic"
  unfolding scratch_independent_def
proof (intro allI impI)
  fix cb cb' :: cs_cell_builder_t and v v' :: "nat \<Rightarrow> real"
  assume a: "hdg cb = h \<and> hdg cb' = h \<and> same_below nd v v'"
  define n where "n = n_vc cm"
  define m where "m = n_ec cm"
  define A where "A func c = write_retval (n_vc cm) (n_vc cm)
      (call_func func (t_cur env) (n_vc cm) (xv cm)) (cb_values c)"
    for func and c :: cs_cell_builder_t
  define vec1 where "vec1 c = q10o2_xvc cm (vectors c)" for c :: cs_cell_builder_t
  define B where "B func c = write_retval (2 * n_vc cm) (n_vc cm)
      (call_func func (t_cur env) (n_vc cm) (vec1 c)) (A func c)"
    for func and c :: cs_cell_builder_t
  define C where "C func c = fold (\<lambda>v b. b(v := wvc cm v * vol_c cm
        * (- 0.05 * (call_func func (t_cur env) 1 (xc cm) 0 + b (n_vc cm + v))
           + 0.2 * b (2 * n_vc cm + v))))
      [0..<n_vc cm] (B func c)"
    for func and c :: cs_cell_builder_t
  define vec2 where "vec2 c = q10o2_xe_xec cm (vec1 c)" for c :: cs_cell_builder_t
  define D where "D func c = write_retval (n_vc cm) (2 * n_ec cm)
      (call_func func (t_cur env) (2 * n_ec cm) (vec2 c)) (C func c)"
    for func and c :: cs_cell_builder_t
  define vec3 where "vec3 c = q10o2_xve cm (vec2 c)" for c :: cs_cell_builder_t
  define F where "F func c = write_retval (n_vc cm + 2 * n_ec cm) (2 * n_ec cm)
      (call_func func (t_cur env) (2 * n_ec cm) (vec3 c)) (D func c)"
    for func and c :: cs_cell_builder_t
  define G where "G func c = fold (q10o2_face env func cm) [0..<n_fc cm] (F func c, vec3 c, ids c)"
    for func and c :: cs_cell_builder_t
  have unfold: "cs_source_term_dcsd_q10o2_by_analytic env (Some d) cm c w =
      (if \<not> assert_ok env (cs_test_flag env (flag cm)
                 (CS_CDO_LOCAL_PFQ env OR CS_CDO_LOCAL_HFQ env OR CS_CDO_LOCAL_FE env OR
                  CS_CDO_LOCAL_FEQ env OR CS_CDO_LOCAL_EV env OR CS_CDO_LOCAL_PVQ env OR
                  CS_CDO_LOCAL_PEQ env))
       then Inl Assertion_failed
       else (case input_as_analytic d of
               Inl e \<Rightarrow> Inl e
             | Inr func \<Rightarrow>
                 (case G func c of (contrib, vec4, idv) \<Rightarrow>
                    Inr (c\<lparr>cb_values := contrib, vectors := vec4, ids := idv\<rparr>,
                         add_to_values (n_vc cm) 0 contrib w))))"
    for d c w
    by (simp only: cs_source_term_dcsd_q10o2_by_analytic_def Let_def option.case
          A_def vec1_def B_def C_def vec2_def D_def vec3_def F_def G_def)
  have g: "same_below (n_vc cm) (fst (G func cb)) (fst (G func cb'))" for func
  proof -
    have v1: "same_below (3 * n) (vec1 cb) (vec1 cb')"
      unfolding vec1_def n_def by (rule q10o2_xvc_same)
    have v2: "same_below (3 * (2 * m)) (vec2 cb) (vec2 cb')"
      using q10o2_xe_xec_same [of cm "vec1 cb" "vec1 cb'"] by (simp add: vec2_def m_def)
    have v3: "same_below (3 * (2 * m)) (vec3 cb) (vec3 cb')"
      using q10o2_xve_same [of cm "vec2 cb" "vec2 cb'"] by (simp add: vec3_def m_def)
    have b: "\<forall>j. n \<le> j \<and> j < 3 * n \<longrightarrow> B func cb j = B func cb' j"
      using call_func_same_below [OF v1, of func "t_cur env"]
      by (auto simp: B_def A_def write_retval_def n_def)
    have c: "same_below n (C func cb) (C func cb')"
    proof -
      have "(\<lambda>s s'. \<forall>j. j < n \<or> (n \<le> j \<and> j < 3 * n) \<longrightarrow> s j = s' j) (C func cb) (C func cb')"
        unfolding C_def n_def [symmetric]
        by (rule fold_upt_grow
              [where P = "\<lambda>k s s'. \<forall>j. j < k \<or> (n \<le> j \<and> j < 3 * n) \<longrightarrow> s j = s' j"])
          (auto simp: b)
      then show ?thesis by (simp add: same_below_def)
    qed
    have d: "same_below (n + 2 * m) (D func cb) (D func cb')"
      unfolding D_def n_def [symmetric] m_def [symmetric]
        call_func_same_below [OF v2, of func "t_cur env"]
      by (rule write_retval_same [OF c]) simp
    have f: "same_below (n + 2 * m + 2 * m) (F func cb) (F func cb')"
      unfolding F_def n_def [symmetric] m_def [symmetric]
        call_func_same_below [OF v3, of func "t_cur env"]
      by (rule write_retval_same [OF d]) simp
    have "(\<lambda>t t'. same_below (n_vc cm + 4 * n_ec cm) (fst t) (fst t')) (G func cb) (G func cb')"
      unfolding G_def
    proof (rule fold_related2
        [where R = "\<lambda>t t'. same_below (n_vc cm + 4 * n_ec cm) (fst t) (fst t')"])
      show "same_below (n_vc cm + 4 * n_ec cm) (fst (F func cb, vec3 cb, ids cb))
              (fst (F func cb', vec3 cb', ids cb'))"
        using f by (simp add: n_def m_def add.commute)
    next
      fix fc and t t' :: "(nat \<Rightarrow> real) \<times> (nat \<Rightarrow> real) \<times> (nat \<Rightarrow> nat)"
      assume fc: "fc \<in> set [0..<n_fc cm]"
        and t: "same_below (n_vc cm + 4 * n_ec cm) (fst t) (fst t')"
      obtain p q r where tt: "t = (p, q, r)" by (cases t)
      obtain p' q' r' where tt': "t' = (p', q', r')" by (cases t')
      from fc have "fc < n_fc cm" by simp
      from q10o2_face_same [OF wf this, of p p' env func q r q' r'] t
      show "same_below (n_vc cm + 4 * n_ec cm) (fst (q10o2_face env func cm fc t))
              (fst (q10o2_face env func cm fc t'))"
        by (simp add: tt tt')
    qed
    then show ?thesis by (rule same_below_mono) simp
  qed
  show "same_outcome nd h (cs_source_term_dcsd_q10o2_by_analytic env st cm cb v)
          (cs_source_term_dcsd_q10o2_by_analytic env st cm cb' v')"
  proof (cases st)
    case None
    with a show ?thesis
      by (simp add: cs_source_term_dcsd_q10o2_by_analytic_def same_outcome_def)
  next
    case (Some d)
    have "same_below nd (add_to_values (n_vc cm) 0 (fst (G func cb)) v)
            (add_to_values (n_vc cm) 0 (fst (G func cb')) v')" for func
      using a g [of func] by (intro same_below_add_to_values) (simp_all add: same_below_def)
    then have "\<And>func p q r p' q' r'. G func cb = (p, q, r) \<Longrightarrow> G func cb' = (p', q', r') \<Longrightarrow>
        same_below nd (add_to_values (n_vc cm) 0 p v) (add_to_values (n_vc cm) 0 p' v')"
      by (metis fst_conv)
    with Some a show ?thesis
      by (auto simp add: unfold same_outcome_def split: sum.splits prod.splits)
  qed
qed

end
